theory Spec2Isabelle
  imports Complex_Main "HOL-Library.Sublist"
begin

section \<open>JavaScript values, errors and the process environment\<close>

text \<open>
  The two services of the repository are Express applications: the frontend
  (\<^verbatim>\<open>apps/lucky-web-app/server.js\<close>, with the component \<^verbatim>\<open>LuckyPage.jsx\<close>) and the
  backend (the second file, with the routes \<^verbatim>\<open>/lucky\<close> and \<^verbatim>\<open>/ping\<close>).  What the code
  receives from outside (the environment variables, the outcome of each \<^verbatim>\<open>fetch\<close>, the
  renderer of React, the passing of time and the draw of \<^verbatim>\<open>Math.random\<close>) is an argument
  of the functions below; what it does (logging, replying, exiting, listening) is a field
  of the state they return.
\<close>

text \<open>A parsed JSON document, as \<^verbatim>\<open>res.json()\<close> of node-fetch resolves to.\<close>

datatype json =
    JNull
  | JBool bool
  | JNum real
  | JStr string
  | JArr "json list"
  | JObj "(string \<times> json) list"

text \<open>
  The errors the code can see.  Each carries its \<^verbatim>\<open>message\<close>; the text of a message that
  comes from node-fetch or from the engine is not fixed by this repository.
\<close>

datatype js_error =
    FetchError string
  | TypeError string
  | Error string

fun message :: "js_error \<Rightarrow> string" where
  "message (FetchError m) = m"
| "message (TypeError m) = m"
| "message (Error m) = m"

text \<open>
  Reading a property \<^verbatim>\<open>data.k\<close> of a parsed document, for a name \<open>k\<close> that no built-in
  prototype defines (the source reads \<^verbatim>\<open>status\<close> and \<^verbatim>\<open>luckyNumber\<close> only): \<^verbatim>\<open>null\<close> has
  no properties and the access throws; an object gives the member (the last one, when the
  text repeated the key) or \<^verbatim>\<open>undefined\<close>, here \<open>None\<close>; every other value gives
  \<^verbatim>\<open>undefined\<close>.
\<close>

fun get_prop :: "json \<Rightarrow> string \<Rightarrow> js_error + json option" where
  "get_prop JNull k =
     Inl (TypeError (''Cannot read properties of null (reading '' @ [CHR 0x27] @ k @ [CHR 0x27] @ '')''))"
| "get_prop (JObj kvs) k = Inr (map_of (rev kvs) k)"
| "get_prop (JBool b) k = Inr None"
| "get_prop (JNum x) k = Inr None"
| "get_prop (JStr s) k = Inr None"
| "get_prop (JArr xs) k = Inr None"

text \<open>\<^verbatim>\<open>process.env\<close>, and \<^verbatim>\<open>process.env.K || d\<close>: an unset or empty variable gives \<open>d\<close>.\<close>

type_synonym env = "string \<rightharpoonup> string"

definition env_or :: "env \<Rightarrow> string \<Rightarrow> string \<Rightarrow> string" where
  "env_or e k d = (case e k of None \<Rightarrow> d | Some v \<Rightarrow> if v = [] then d else v)"

text \<open>What \<^verbatim>\<open>console.log\<close> and \<^verbatim>\<open>console.error\<close> print: a line of text, or an error object.\<close>

datatype log_item = Line string | Dump js_error

text \<open>An HTTP reply of either service; \<open>DefaultPage\<close> is the page Express itself answers with.\<close>

datatype payload = Json json | Text string | DefaultPage

record reply =
  status :: nat
  body :: payload

text \<open>
  What \<^verbatim>\<open>app.listen(PORT)\<close> comes to, for the port as it prints: the listener is bound, or
  the call throws (a value that is not a legal port) or the server emits an error (a port
  in use).  Neither file catches that: the process ends, with the exit code the runtime
  gives it.  What the operating system and the runtime decide here is an argument of the
  functions below; what the runtime itself prints about the error is not part of the
  console.
\<close>

datatype listen_outcome = Bound | Fails int

type_synonym ports = "string \<Rightarrow> listen_outcome"

section \<open>The frontend: \<^verbatim>\<open>lucky-web-app/server.js\<close>\<close>

subsection \<open>Configuration\<close>

text \<open>\<^verbatim>\<open>PORT\<close> as it prints: the variable's text, or the number 4000.\<close>

definition web_PORT :: "env \<Rightarrow> string" where
  "web_PORT e = env_or e ''PORT'' ''4000''"

definition LUCKY_API_URL :: "env \<Rightarrow> string" where
  "LUCKY_API_URL e = env_or e ''LUCKY_API_URL'' ''http://lucky-number-app/lucky''"

text \<open>
  \<^verbatim>\<open>s.replace(/pat$/, rep)\<close> for a literal \<open>pat\<close>: the search goes through the positions of
  \<open>s\<close> from the left and the first one where \<open>pat\<close> followed by the end of the input
  matches is replaced.
\<close>

fun replace_at_end :: "string \<Rightarrow> string \<Rightarrow> string \<Rightarrow> string" where
  "replace_at_end pat rep [] = (if pat = [] then rep else [])"
| "replace_at_end pat rep (c # cs) =
     (if c # cs = pat then rep else c # replace_at_end pat rep cs)"

definition PING_URL :: "env \<Rightarrow> string" where
  "PING_URL e = replace_at_end ''/lucky'' ''/ping'' (LUCKY_API_URL e)"

text \<open>
  The specification's wording of the same derivation, for comparison with \<open>PING_URL\<close>:
  the trailing path segment of the URL (its last \<^verbatim>\<open>/\<close> and what follows it) is replaced.
\<close>

definition replace_trailing_segment :: "string \<Rightarrow> string \<Rightarrow> string" where
  "replace_trailing_segment u seg =
     rev (tl (dropWhile (\<lambda>c. c \<noteq> CHR ''/'') (rev u))) @ seg"

subsection \<open>Outgoing requests\<close>

text \<open>
  A call \<^verbatim>\<open>fetch(url, {timeout})\<close> and what its promise settles to: a rejection (a
  timeout, a refused connection, an unreachable host) or a response, of which the code
  reads the status and the outcome of \<^verbatim>\<open>json()\<close>.  A promise that never settles is outside
  this model.
\<close>

record request =
  url :: string
  timeout :: "nat option"

record fetched =
  f_status :: nat
  f_json :: "js_error + json"

type_synonym network = "request \<Rightarrow> js_error + fetched"

text \<open>\<^verbatim>\<open>res.ok\<close> of node-fetch.\<close>

definition ok :: "fetched \<Rightarrow> bool" where
  "ok res = (200 \<le> f_status res \<and> f_status res < 300)"

subsection \<open>The startup gate\<close>

text \<open>
  \<^verbatim>\<open>checkLuckyNumberApp\<close>: the inner case is the \<^verbatim>\<open>try\<close> block, in which every throw is
  \<open>Inl\<close>; the outer one is the \<^verbatim>\<open>catch\<close>.  The result is the boolean the promise resolves
  to and the lines written to the console.
\<close>

definition checkLuckyNumberApp :: "network \<Rightarrow> env \<Rightarrow> bool \<times> log_item list" where
  "checkLuckyNumberApp net e =
     (case
        (case net \<lparr>url = PING_URL e, timeout = Some 2000\<rparr> of
           Inl err \<Rightarrow> Inl err
         | Inr res \<Rightarrow>
             if \<not> ok res then Inl (Error ''Ping failed'')
             else
               (case f_json res of
                  Inl err \<Rightarrow> Inl err
                | Inr data \<Rightarrow>
                    (case get_prop data ''status'' of
                       Inl err \<Rightarrow> Inl err
                     | Inr st \<Rightarrow>
                         if st \<noteq> Some (JStr ''ok'')
                         then Inl (Error ''Ping returned unexpected status'')
                         else Inr True)))
      of
        Inr r \<Rightarrow> (r, [])
      | Inl err \<Rightarrow>
          (False,
           [Line (''Could not reach lucky-number-app /ping endpoint: '' @ message err)]))"

text \<open>
  The frontend process: its console, its exit code once it has exited, and the port its
  listener is bound to once \<^verbatim>\<open>app.listen\<close> has run.
\<close>

record frontend =
  console :: "log_item list"
  exit_code :: "int option"
  listening :: "string option"

text \<open>
  The last statement of the file: \<^verbatim>\<open>checkLuckyNumberApp().then((ok) => ...)\<close>.  After
  \<^verbatim>\<open>process.exit(1)\<close> nothing runs; otherwise \<^verbatim>\<open>app.listen(PORT, ...)\<close> is called, and its
  callback prints only when the listener is bound.
\<close>

definition start_frontend :: "network \<Rightarrow> ports \<Rightarrow> env \<Rightarrow> frontend" where
  "start_frontend net os e =
     (case checkLuckyNumberApp net e of
        (up, lg) \<Rightarrow>
          if \<not> up then
            \<lparr>console = lg @ [Line ''Startup aborted: lucky-number-app is not reachable.''],
             exit_code = Some 1,
             listening = None\<rparr>
          else
            (case os (web_PORT e) of
               Bound \<Rightarrow>
                 \<lparr>console = lg @ [Line (''Lucky Web App running on port '' @ web_PORT e)],
                  exit_code = None,
                  listening = Some (web_PORT e)\<rparr>
             | Fails code \<Rightarrow>
                 \<lparr>console = lg, exit_code = Some code, listening = None\<rparr>))"

subsection \<open>The page and the route \<^verbatim>\<open>/\<close>\<close>

text \<open>
  A React element, and the component \<^verbatim>\<open>LuckyPage\<close>; the value in braces is the property
  \<^verbatim>\<open>number\<close>, \<open>None\<close> when it is \<^verbatim>\<open>undefined\<close>.
\<close>

datatype element =
    Tag string "(string \<times> string) list" "element list"
  | Words string
  | Braces "json option"

definition LuckyPage :: "json option \<Rightarrow> element" where
  "LuckyPage number =
     Tag ''div'' []
       [Tag ''h1'' [] [Words ''Your Lucky Number''],
        Tag ''div'' [(''className'', ''number'')] [Braces number]]"

text \<open>\<^verbatim>\<open>ReactDOMServer.renderToString\<close> is React's; it is an argument of the handler.\<close>

type_synonym renderer = "element \<Rightarrow> js_error + string"

definition nl :: string where
  "nl = [CHR 0x0A]"

text \<open>The template literal passed to \<^verbatim>\<open>res.send\<close>.\<close>

definition page :: "string \<Rightarrow> string" where
  "page html =
     nl @ ''      <!DOCTYPE html>'' @
     nl @ ''      <html>'' @
     nl @ ''        <head>'' @
     nl @ ''          <title>Your Lucky Number</title>'' @
     nl @ ''          <style>'' @
     nl @ ''            body { font-family: sans-serif; text-align: center; margin-top: 3em; }'' @
     nl @ ''            .number { font-size: 3em; color: #2b7a78; }'' @
     nl @ ''          </style>'' @
     nl @ ''        </head>'' @
     nl @ ''        <body>'' @
     nl @ ''          '' @ html @
     nl @ ''        </body>'' @
     nl @ ''      </html>'' @
     nl @ ''    ''"

text \<open>
  The handler of \<^verbatim>\<open>app.get('/')\<close>: the reply and what it writes to the console.  The
  request to the backend carries no timeout, and neither the status of the response nor
  the shape of the document is looked at.
\<close>

definition root_handler :: "network \<Rightarrow> renderer \<Rightarrow> env \<Rightarrow> reply \<times> log_item list" where
  "root_handler net render e =
     (case
        (case net \<lparr>url = LUCKY_API_URL e, timeout = None\<rparr> of
           Inl err \<Rightarrow> Inl err
         | Inr response \<Rightarrow>
             (case f_json response of
                Inl err \<Rightarrow> Inl err
              | Inr data \<Rightarrow>
                  (case get_prop data ''luckyNumber'' of
                     Inl err \<Rightarrow> Inl err
                   | Inr number \<Rightarrow>
                       (case render (LuckyPage number) of
                          Inl err \<Rightarrow> Inl err
                        | Inr html \<Rightarrow> Inr (page html)))))
      of
        Inr pg \<Rightarrow> (\<lparr>status = 200, body = Text pg\<rparr>, [])
      | Inl err \<Rightarrow> (\<lparr>status = 500, body = Text ''Failed to fetch lucky number''\<rparr>, [Dump err]))"

text \<open>
  A GET arriving at the frontend's port.  A process that has exited, or has not bound its
  listener, accepts no connection (\<open>None\<close>); Express answers a path with no route by its
  own 404 page.
\<close>

definition web_get ::
  "network \<Rightarrow> renderer \<Rightarrow> env \<Rightarrow> frontend \<Rightarrow> string \<Rightarrow> (reply \<times> frontend) option" where
  "web_get net render e st path =
     (if exit_code st \<noteq> None \<or> listening st = None then None
      else if path = ''/'' then
        (case root_handler net render e of
           (r, lg) \<Rightarrow> Some (r, st\<lparr>console := console st @ lg\<rparr>))
      else Some (\<lparr>status = 404, body = DefaultPage\<rparr>, st))"

subsection \<open>Reading the console\<close>

text \<open>
  A console entry names an address when the address occurs in it, character for
  character: in the line, or in the message of the error printed.
\<close>

definition names_address :: "string \<Rightarrow> log_item \<Rightarrow> bool" where
  "names_address addr item =
     (case item of Line s \<Rightarrow> sublist addr s | Dump err \<Rightarrow> sublist addr (message err))"

section \<open>The backend: the lucky-number service\<close>

subsection \<open>Configuration and printing\<close>

definition api_PORT :: "env \<Rightarrow> string" where
  "api_PORT e = env_or e ''PORT'' ''3001''"

text \<open>\<^verbatim>\<open>process.env.POD_NAME\<close> as the console and a template literal print it.\<close>

definition podName :: "env \<Rightarrow> string" where
  "podName e = (case e ''POD_NAME'' of None \<Rightarrow> ''undefined'' | Some v \<Rightarrow> v)"

text \<open>An integer as a template literal prints it.\<close>

fun digits :: "nat \<Rightarrow> string" where
  "digits n =
     (if n < 10 then [''0123456789'' ! n]
      else digits (n div 10) @ [''0123456789'' ! (n mod 10)])"

definition show_int :: "int \<Rightarrow> string" where
  "show_int i = (if i < 0 then ''-'' @ digits (nat (- i)) else digits (nat i))"

subsection \<open>The process and its clock\<close>

text \<open>
  The backend process: the time in milliseconds since its launch (\<^verbatim>\<open>Date.now()\<close> reads
  it, up to the constant epoch of the launch, which cancels in the one subtraction of the
  source), the deadline of the pending \<^verbatim>\<open>setTimeout\<close> of \<^verbatim>\<open>startupDelay\<close>, the port of
  the listener while the process listens, and the console, each line with the time it was
  printed at.  \<open>b_exit\<close> is the exit code once the process has ended; a process that has
  ended has no listener.
\<close>

record backend =
  b_exit :: "int option"
  b_now :: nat
  b_timer :: "nat option"
  b_listening :: "string option"
  b_log :: "(nat \<times> string) list"

definition console_log :: "string \<Rightarrow> backend \<Rightarrow> backend" where
  "console_log s st = st\<lparr>b_log := b_log st @ [(b_now st, s)]\<rparr>"

text \<open>
  Launching the file: the routes are registered, then \<^verbatim>\<open>startupDelay()\<close> prints its first
  line and arms a timer of 5000 milliseconds.  Nothing listens yet.
\<close>

definition launch :: "backend" where
  "launch =
     console_log ''App is starting... please wait''
       \<lparr>b_exit = None, b_now = 0, b_timer = Some 5000, b_listening = None, b_log = []\<rparr>"

text \<open>
  A turn of the event loop through its timers: a timer whose deadline has passed runs.
  Here that resolves the promise of \<^verbatim>\<open>startupDelay\<close>, whose continuation prints and calls
  \<^verbatim>\<open>app.listen(PORT, ...)\<close>; the callback of that prints once the listener is bound.  When
  \<^verbatim>\<open>app.listen\<close> fails the process ends without a listener.
\<close>

definition run_timers :: "ports \<Rightarrow> env \<Rightarrow> backend \<Rightarrow> backend" where
  "run_timers os e st =
     (case b_timer st of
        None \<Rightarrow> st
      | Some deadline \<Rightarrow>
          if b_now st < deadline then st
          else
            (let st1 = console_log ''App2 is ready!'' (st\<lparr>b_timer := None\<rparr>)
             in case os (api_PORT e) of
                  Bound \<Rightarrow>
                    console_log (''Server is running on port '' @ api_PORT e)
                      (st1\<lparr>b_listening := Some (api_PORT e)\<rparr>)
                | Fails code \<Rightarrow> st1\<lparr>b_exit := Some code, b_listening := None\<rparr>))"

subsection \<open>\<^verbatim>\<open>busyWait\<close>\<close>

text \<open>
  The loop \<^verbatim>\<open>while (Date.now() - start < ms) {}\<close>.  \<open>now\<close> is the time of the reading in
  the condition; the list gives, for each later reading, the time that passes before it.
  A list that ends while the condition still holds is a loop that is still spinning:
  \<open>None\<close>.
\<close>

fun spin :: "nat \<Rightarrow> nat \<Rightarrow> nat list \<Rightarrow> nat \<Rightarrow> nat option" where
  "spin start ms [] now = (if int now - int start < int ms then None else Some now)"
| "spin start ms (d # ds) now =
     (if int now - int start < int ms then spin start ms ds (now + d) else Some now)"

text \<open>
  \<^verbatim>\<open>busyWait(ms)\<close> called at time \<open>now\<close>: \<^verbatim>\<open>start\<close> is read, then the loop runs, its first
  reading after the first delay of the list.  The result is the time at which it returns.
  The clock does not go back: the delays are natural numbers.
\<close>

definition busyWait :: "nat \<Rightarrow> nat list \<Rightarrow> nat \<Rightarrow> nat option" where
  "busyWait ms ticks now =
     (case ticks of [] \<Rightarrow> None | d # ds \<Rightarrow> spin now ms ds (now + d))"

subsection \<open>The routes\<close>

text \<open>
  JavaScript numbers are IEEE 754 binary64 values and every arithmetic operation rounds
  its exact result to the nearest of them, ties to the even significand.  \<open>ulp x\<close> is
  the spacing of the binary64 values around \<open>x\<close> (52 fraction bits, the subnormal
  spacing at the bottom) and \<open>fl x\<close> is \<open>x\<close> rounded; overflow to infinity is not
  modelled, the numbers of this program stay below 128.
\<close>

definition round_even :: "real \<Rightarrow> int" where
  "round_even y =
     (let f = \<lfloor>y\<rfloor> in
      if y - of_int f < 1 / 2 then f
      else if 1 / 2 < y - of_int f then f + 1
      else if even f then f else f + 1)"

definition ulp :: "real \<Rightarrow> real" where
  "ulp x = 2 powr of_int (max (\<lfloor>log 2 \<bar>x\<bar>\<rfloor> - 52) (- 1074))"

definition fl :: "real \<Rightarrow> real" where
  "fl x = sgn x * (of_int (round_even (\<bar>x\<bar> / ulp x)) * ulp x)"

text \<open>
  \<^verbatim>\<open>Math.floor(10 + Math.random() * 90)\<close> for a draw \<open>r\<close>: the product is rounded, then
  the sum is.
\<close>

definition luckyNumber :: "real \<Rightarrow> int" where
  "luckyNumber r = \<lfloor>fl (10 + fl (r * 90))\<rfloor>"

text \<open>
  The handler of \<^verbatim>\<open>/lucky\<close>, given the clock's delays during the wait and the draw.  It
  has no \<^verbatim>\<open>await\<close>: it runs from its first statement to \<^verbatim>\<open>res.json\<close> in one piece, or
  never gets there.
\<close>

definition lucky_handler ::
  "env \<Rightarrow> nat list \<Rightarrow> real \<Rightarrow> backend \<Rightarrow> (reply \<times> backend) option" where
  "lucky_handler e ticks r st =
     (let st1 = console_log (''Running on pod: '' @ podName e) st;
          st2 = console_log
                  (''Received request for lucky number in pod '' @ podName e @ ''...'') st1
      in case busyWait 5000 ticks (b_now st2) of
           None \<Rightarrow> None
         | Some t \<Rightarrow>
             (let st3 = st2\<lparr>b_now := t\<rparr>;
                  n = luckyNumber r;
                  st4 = console_log
                          (''Generated lucky number: '' @ show_int n @ '' in pod '' @ podName e)
                          st3
              in Some
                   (\<lparr>status = 200, body = Json (JObj [(''luckyNumber'', JNum (of_int n))])\<rparr>,
                    st4)))"

definition ping_handler :: "reply" where
  "ping_handler = \<lparr>status = 200, body = Json (JObj [(''status'', JStr ''ok'')])\<rparr>"

text \<open>
  What a client that sends a GET gets: no connection while nothing listens, the reply of
  the route otherwise.  The routes are \<^verbatim>\<open>/lucky\<close> and \<^verbatim>\<open>/ping\<close>; Express answers every other
  path by its own 404 page.  \<open>None\<close>: the handler never returns.
\<close>

datatype answer = Refused | Answered reply

definition api_get ::
  "env \<Rightarrow> backend \<Rightarrow> string \<Rightarrow> nat list \<Rightarrow> real \<Rightarrow> (answer \<times> backend) option" where
  "api_get e st path ticks r =
     (case b_listening st of
        None \<Rightarrow> Some (Refused, st)
      | Some port \<Rightarrow>
          if path = ''/lucky'' then
            (case lucky_handler e ticks r st of
               None \<Rightarrow> None
             | Some (rp, st') \<Rightarrow> Some (Answered rp, st'))
          else if path = ''/ping'' then Some (Answered ping_handler, st)
          else Some (Answered \<lparr>status = 404, body = DefaultPage\<rparr>, st))"

subsection \<open>Histories of the backend process\<close>

text \<open>
  What happens to a backend process, one event after the other: time passes while it is
  idle, the event loop runs its timers (a process that has ended runs none), or a GET
  arrives (with the clock's delays and the draw its handler will meet).
\<close>

datatype event = Elapse nat | Timers | Get string "nat list" real

fun step :: "ports \<Rightarrow> env \<Rightarrow> event \<Rightarrow> backend \<Rightarrow> backend option" where
  "step os e (Elapse d) st = Some (st\<lparr>b_now := b_now st + d\<rparr>)"
| "step os e Timers st = Some (if b_exit st \<noteq> None then st else run_timers os e st)"
| "step os e (Get path ticks r) st = map_option snd (api_get e st path ticks r)"

fun run :: "ports \<Rightarrow> env \<Rightarrow> event list \<Rightarrow> backend \<Rightarrow> backend option" where
  "run os e [] st = Some st"
| "run os e (ev # evs) st =
     (case step os e ev st of None \<Rightarrow> None | Some st' \<Rightarrow> run os e evs st')"

text \<open>
  The requests that are pending at one moment, handled by the one thread in their order:
  a handler runs to its end before the next request is looked at.  Each answer comes with
  the time it is given at.
\<close>

fun serve :: "env \<Rightarrow> (string \<times> nat list \<times> real) list \<Rightarrow> backend \<Rightarrow> (answer \<times> nat) list option" where
  "serve e [] st = Some []"
| "serve e ((path, ticks, r) # rest) st =
     (case api_get e st path ticks r of
        None \<Rightarrow> None
      | Some (a, st') \<Rightarrow>
          (case serve e rest st' of
             None \<Rightarrow> None
           | Some out \<Rightarrow> Some ((a, b_now st') # out)))"

section \<open>Properties of the frontend\<close>

subsection \<open>The probe URL\<close>

lemma replace_at_end_suffix:
  "replace_at_end pat rep s =
     (if suffix pat s then take (length s - length pat) s @ rep else s)"
proof (induction s)
  case Nil
  then show ?case by simp
next
  case (Cons c cs)
  show ?case
  proof (cases "c # cs = pat")
    case True
    then show ?thesis by auto
  next
    case False
    then have sfx: "suffix pat (c # cs) = suffix pat cs"
      by (auto simp: suffix_Cons)
    show ?thesis
    proof (cases "suffix pat cs")
      case True
      then have "length pat \<le> length cs" by (rule suffix_length_le)
      then have "take (length (c # cs) - length pat) (c # cs) = c # take (length cs - length pat) cs"
        by (simp add: Suc_diff_le)
      with True False sfx Cons.IH show ?thesis by simp
    next
      case False
      with \<open>c # cs \<noteq> pat\<close> sfx Cons.IH show ?thesis by simp
    qed
  qed
qed

lemma replace_trailing_segment_lucky:
  "replace_trailing_segment (p @ ''/lucky'') seg = p @ seg"
  by (simp add: replace_trailing_segment_def)

text \<open>
  Claim C6, as the code has it: when \<^verbatim>\<open>LUCKY_API_URL\<close> ends in \<^verbatim>\<open>/lucky\<close>, the probe URL is
  \<^verbatim>\<open>LUCKY_API_URL\<close> with that trailing path segment replaced by \<^verbatim>\<open>/ping\<close>; for every other
  value the probe URL is \<^verbatim>\<open>LUCKY_API_URL\<close> itself, unchanged.
\<close>

theorem PING_URL_replaces_lucky_only:
  "PING_URL e =
     (if suffix ''/lucky'' (LUCKY_API_URL e)
      then replace_trailing_segment (LUCKY_API_URL e) ''/ping''
      else LUCKY_API_URL e)"
proof (cases "suffix ''/lucky'' (LUCKY_API_URL e)")
  case True
  then obtain p where p: "LUCKY_API_URL e = p @ ''/lucky''"
    by (auto simp: suffix_def)
  have "PING_URL e = p @ ''/ping''"
    unfolding PING_URL_def replace_at_end_suffix p by (simp add: suffix_def)
  with True p show ?thesis
    by (simp only: replace_trailing_segment_lucky if_True)
next
  case False
  then show ?thesis
    unfolding PING_URL_def replace_at_end_suffix by simp
qed

text \<open>
  The default URL and one with another host: both end in \<^verbatim>\<open>/lucky\<close> and are probed at
  \<^verbatim>\<open>/ping\<close>.  A URL with a trailing slash is probed as it is.
\<close>

theorem PING_URL_replaces_lucky_only_witness:
  "PING_URL Map.empty = ''http://lucky-number-app/ping''
   \<and> PING_URL [''LUCKY_API_URL'' \<mapsto> ''http://10.0.0.7:3001/lucky''] = ''http://10.0.0.7:3001/ping''
   \<and> PING_URL [''LUCKY_API_URL'' \<mapsto> ''http://10.0.0.7:3001/lucky/'']
       = ''http://10.0.0.7:3001/lucky/''"
  using PING_URL_replaces_lucky_only [of Map.empty]
    PING_URL_replaces_lucky_only [of "[''LUCKY_API_URL'' \<mapsto> ''http://10.0.0.7:3001/lucky'']"]
    PING_URL_replaces_lucky_only [of "[''LUCKY_API_URL'' \<mapsto> ''http://10.0.0.7:3001/lucky/'']"]
  by (simp add: LUCKY_API_URL_def env_or_def replace_trailing_segment_def suffix_def)

text \<open>
  Claim C6 as stated (for every value of \<^verbatim>\<open>LUCKY_API_URL\<close> the probe URL is the URL with its
  trailing path segment replaced by \<^verbatim>\<open>/ping\<close>) fails for a URL whose last segment is not
  \<^verbatim>\<open>lucky\<close>: the probe then goes to the unit-of-work URL itself.
\<close>

theorem PING_URL_other_segment_counterexample:
  "PING_URL [''LUCKY_API_URL'' \<mapsto> ''http://lucky-number-app/number'']
     \<noteq> replace_trailing_segment
         (LUCKY_API_URL [''LUCKY_API_URL'' \<mapsto> ''http://lucky-number-app/number'']) ''/ping''"
  by (simp add: PING_URL_def LUCKY_API_URL_def env_or_def replace_trailing_segment_def)

subsection \<open>The decision of the gate\<close>

text \<open>
  Claim C1: the gate sends one GET, to the probe URL with a timeout of 2000 milliseconds,
  and its decision follows the table.  A rejected request (a timeout, a refused
  connection, an unreachable host), a status outside 200..299, a body that is not JSON,
  and a document whose \<^verbatim>\<open>status\<close> is not the string \<^verbatim>\<open>ok\<close> each give \<open>False\<close> (Abort); a
  success status with a document whose \<^verbatim>\<open>status\<close> is \<^verbatim>\<open>ok\<close> gives \<open>True\<close> (Proceed).
\<close>

theorem gate_decision_table:
  "(\<forall>err. net \<lparr>url = PING_URL e, timeout = Some 2000\<rparr> = Inl err
        \<longrightarrow> fst (checkLuckyNumberApp net e) = False)
   \<and> (\<forall>res. net \<lparr>url = PING_URL e, timeout = Some 2000\<rparr> = Inr res \<and> \<not> ok res
        \<longrightarrow> fst (checkLuckyNumberApp net e) = False)
   \<and> (\<forall>res err. net \<lparr>url = PING_URL e, timeout = Some 2000\<rparr> = Inr res \<and> ok res
          \<and> f_json res = Inl err
        \<longrightarrow> fst (checkLuckyNumberApp net e) = False)
   \<and> (\<forall>res data. net \<lparr>url = PING_URL e, timeout = Some 2000\<rparr> = Inr res \<and> ok res
          \<and> f_json res = Inr data \<and> get_prop data ''status'' \<noteq> Inr (Some (JStr ''ok''))
        \<longrightarrow> fst (checkLuckyNumberApp net e) = False)
   \<and> (\<forall>res data. net \<lparr>url = PING_URL e, timeout = Some 2000\<rparr> = Inr res \<and> ok res
          \<and> f_json res = Inr data \<and> get_prop data ''status'' = Inr (Some (JStr ''ok''))
        \<longrightarrow> fst (checkLuckyNumberApp net e) = True)"
  by (auto simp: checkLuckyNumberApp_def split: sum.splits)

text \<open>
  The five rows at the default configuration: a timeout of the probe request, a status
  503, a body that does not parse, a document that reports \<^verbatim>\<open>starting\<close>, and the
  affirmative answer given to exactly the request the gate sends.
\<close>

theorem gate_decision_table_witness:
  "fst (checkLuckyNumberApp
         (\<lambda>rq. if rq = \<lparr>url = ''http://lucky-number-app/ping'', timeout = Some 2000\<rparr>
                then Inl (FetchError ''network timeout at: http://lucky-number-app/ping'')
                else Inr \<lparr>f_status = 200, f_json = Inr (JObj [(''status'', JStr ''ok'')])\<rparr>)
         Map.empty) = False
   \<and> fst (checkLuckyNumberApp
         (\<lambda>rq. Inr \<lparr>f_status = 503, f_json = Inr (JObj [(''status'', JStr ''ok'')])\<rparr>)
         Map.empty) = False
   \<and> fst (checkLuckyNumberApp
         (\<lambda>rq. Inr \<lparr>f_status = 200, f_json = Inl (FetchError ''invalid json response body'')\<rparr>)
         Map.empty) = False
   \<and> fst (checkLuckyNumberApp
         (\<lambda>rq. Inr \<lparr>f_status = 200, f_json = Inr (JObj [(''status'', JStr ''starting'')])\<rparr>)
         Map.empty) = False
   \<and> fst (checkLuckyNumberApp
         (\<lambda>rq. if rq = \<lparr>url = ''http://lucky-number-app/ping'', timeout = Some 2000\<rparr>
                then Inr \<lparr>f_status = 200, f_json = Inr (JObj [(''status'', JStr ''ok'')])\<rparr>
                else Inl (FetchError ''another request''))
         Map.empty) = True"
  using
    gate_decision_table
      [of "\<lambda>rq. if rq = \<lparr>url = ''http://lucky-number-app/ping'', timeout = Some 2000\<rparr>
                then Inl (FetchError ''network timeout at: http://lucky-number-app/ping'')
                else Inr \<lparr>f_status = 200, f_json = Inr (JObj [(''status'', JStr ''ok'')])\<rparr>"
          Map.empty]
    gate_decision_table
      [of "\<lambda>rq. Inr \<lparr>f_status = 503, f_json = Inr (JObj [(''status'', JStr ''ok'')])\<rparr>"
          Map.empty]
    gate_decision_table
      [of "\<lambda>rq. Inr \<lparr>f_status = 200, f_json = Inl (FetchError ''invalid json response body'')\<rparr>"
          Map.empty]
    gate_decision_table
      [of "\<lambda>rq. Inr \<lparr>f_status = 200, f_json = Inr (JObj [(''status'', JStr ''starting'')])\<rparr>"
          Map.empty]
    gate_decision_table
      [of "\<lambda>rq. if rq = \<lparr>url = ''http://lucky-number-app/ping'', timeout = Some 2000\<rparr>
                then Inr \<lparr>f_status = 200, f_json = Inr (JObj [(''status'', JStr ''ok'')])\<rparr>
                else Inl (FetchError ''another request'')"
          Map.empty]
  by (simp add: PING_URL_def LUCKY_API_URL_def env_or_def ok_def)

subsection \<open>Aborting the startup\<close>

lemma check_False_console:
  "fst (checkLuckyNumberApp net e) = False \<Longrightarrow>
   \<exists>m. snd (checkLuckyNumberApp net e) =
     [Line (''Could not reach lucky-number-app /ping endpoint: '' @ m)]"
  by (auto simp: checkLuckyNumberApp_def split: sum.splits if_splits)

lemma start_frontend_abort:
  assumes "checkLuckyNumberApp net e = (False, lg)"
  shows "start_frontend net os e =
           \<lparr>console = lg @ [Line ''Startup aborted: lucky-number-app is not reachable.''],
            exit_code = Some 1, listening = None\<rparr>"
  using assms by (simp add: start_frontend_def)

lemma check_caught:
  "(net \<lparr>url = PING_URL e, timeout = Some 2000\<rparr> = Inl err \<longrightarrow>
      checkLuckyNumberApp net e =
        (False, [Line (''Could not reach lucky-number-app /ping endpoint: '' @ message err)]))
   \<and> (net \<lparr>url = PING_URL e, timeout = Some 2000\<rparr> = Inr res \<and> \<not> ok res \<longrightarrow>
      checkLuckyNumberApp net e =
        (False, [Line ''Could not reach lucky-number-app /ping endpoint: Ping failed'']))
   \<and> (net \<lparr>url = PING_URL e, timeout = Some 2000\<rparr> = Inr res \<and> ok res
        \<and> f_json res = Inl err \<longrightarrow>
      checkLuckyNumberApp net e =
        (False, [Line (''Could not reach lucky-number-app /ping endpoint: '' @ message err)]))
   \<and> (net \<lparr>url = PING_URL e, timeout = Some 2000\<rparr> = Inr res \<and> ok res
        \<and> f_json res = Inr data \<and> get_prop data ''status'' = Inl err \<longrightarrow>
      checkLuckyNumberApp net e =
        (False, [Line (''Could not reach lucky-number-app /ping endpoint: '' @ message err)]))
   \<and> (net \<lparr>url = PING_URL e, timeout = Some 2000\<rparr> = Inr res \<and> ok res
        \<and> f_json res = Inr data \<and> get_prop data ''status'' = Inr v
        \<and> v \<noteq> Some (JStr ''ok'') \<longrightarrow>
      checkLuckyNumberApp net e =
        (False,
         [Line ''Could not reach lucky-number-app /ping endpoint: Ping returned unexpected status'']))"
  by (simp add: checkLuckyNumberApp_def)

text \<open>
  Claim C2, as the code has it: when the gate decides Abort, the frontend prints
  \<^verbatim>\<open>Could not reach lucky-number-app /ping endpoint:\<close> followed by the message of the
  error that was caught (that of the rejected request, of the body that does not parse or
  of the property read that throws, \<^verbatim>\<open>Ping failed\<close> for a failure status, and
  \<^verbatim>\<open>Ping returned unexpected status\<close> for a document whose status is not \<^verbatim>\<open>ok\<close>), then
  \<^verbatim>\<open>Startup aborted: lucky-number-app is not reachable.\<close>, and exits with code 1 without
  binding its listener, whatever \<^verbatim>\<open>app.listen\<close> would have come to; no request of any path
  is accepted afterwards.  The dependency is named by the fixed text
  \<^verbatim>\<open>lucky-number-app /ping endpoint\<close>; the probed address is printed only as far as the
  error's message holds it.
\<close>

theorem abort_exits_without_listening:
  assumes "fst (checkLuckyNumberApp net e) = False"
  shows "(\<forall>err. net \<lparr>url = PING_URL e, timeout = Some 2000\<rparr> = Inl err \<longrightarrow>
            console (start_frontend net os e) =
              [Line (''Could not reach lucky-number-app /ping endpoint: '' @ message err),
               Line ''Startup aborted: lucky-number-app is not reachable.''])
         \<and> (\<forall>res. net \<lparr>url = PING_URL e, timeout = Some 2000\<rparr> = Inr res \<and> \<not> ok res \<longrightarrow>
            console (start_frontend net os e) =
              [Line ''Could not reach lucky-number-app /ping endpoint: Ping failed'',
               Line ''Startup aborted: lucky-number-app is not reachable.''])
         \<and> (\<forall>res err. net \<lparr>url = PING_URL e, timeout = Some 2000\<rparr> = Inr res \<and> ok res
              \<and> f_json res = Inl err \<longrightarrow>
            console (start_frontend net os e) =
              [Line (''Could not reach lucky-number-app /ping endpoint: '' @ message err),
               Line ''Startup aborted: lucky-number-app is not reachable.''])
         \<and> (\<forall>res data err. net \<lparr>url = PING_URL e, timeout = Some 2000\<rparr> = Inr res \<and> ok res
              \<and> f_json res = Inr data \<and> get_prop data ''status'' = Inl err \<longrightarrow>
            console (start_frontend net os e) =
              [Line (''Could not reach lucky-number-app /ping endpoint: '' @ message err),
               Line ''Startup aborted: lucky-number-app is not reachable.''])
         \<and> (\<forall>res data v. net \<lparr>url = PING_URL e, timeout = Some 2000\<rparr> = Inr res \<and> ok res
              \<and> f_json res = Inr data \<and> get_prop data ''status'' = Inr v
              \<and> v \<noteq> Some (JStr ''ok'') \<longrightarrow>
            console (start_frontend net os e) =
              [Line ''Could not reach lucky-number-app /ping endpoint: Ping returned unexpected status'',
               Line ''Startup aborted: lucky-number-app is not reachable.''])
         \<and> exit_code (start_frontend net os e) = Some 1
         \<and> listening (start_frontend net os e) = None
         \<and> (\<forall>net' render path. web_get net' render e (start_frontend net os e) path = None)"
proof (intro conjI allI impI)
  fix err
  assume "net \<lparr>url = PING_URL e, timeout = Some 2000\<rparr> = Inl err"
  with check_caught [of net e err] have "checkLuckyNumberApp net e =
      (False, [Line (''Could not reach lucky-number-app /ping endpoint: '' @ message err)])"
    by blast
  from start_frontend_abort [OF this]
  show "console (start_frontend net os e) =
          [Line (''Could not reach lucky-number-app /ping endpoint: '' @ message err),
           Line ''Startup aborted: lucky-number-app is not reachable.'']" by simp
next
  fix res
  assume "net \<lparr>url = PING_URL e, timeout = Some 2000\<rparr> = Inr res \<and> \<not> ok res"
  with check_caught [of net e _ res] have "checkLuckyNumberApp net e =
      (False, [Line ''Could not reach lucky-number-app /ping endpoint: Ping failed''])"
    by blast
  from start_frontend_abort [OF this]
  show "console (start_frontend net os e) =
          [Line ''Could not reach lucky-number-app /ping endpoint: Ping failed'',
           Line ''Startup aborted: lucky-number-app is not reachable.'']" by simp
next
  fix res err
  assume "net \<lparr>url = PING_URL e, timeout = Some 2000\<rparr> = Inr res \<and> ok res
            \<and> f_json res = Inl err"
  with check_caught [of net e err res] have "checkLuckyNumberApp net e =
      (False, [Line (''Could not reach lucky-number-app /ping endpoint: '' @ message err)])"
    by blast
  from start_frontend_abort [OF this]
  show "console (start_frontend net os e) =
          [Line (''Could not reach lucky-number-app /ping endpoint: '' @ message err),
           Line ''Startup aborted: lucky-number-app is not reachable.'']" by simp
next
  fix res data err
  assume "net \<lparr>url = PING_URL e, timeout = Some 2000\<rparr> = Inr res \<and> ok res
            \<and> f_json res = Inr data \<and> get_prop data ''status'' = Inl err"
  with check_caught [of net e err res data] have "checkLuckyNumberApp net e =
      (False, [Line (''Could not reach lucky-number-app /ping endpoint: '' @ message err)])"
    by blast
  from start_frontend_abort [OF this]
  show "console (start_frontend net os e) =
          [Line (''Could not reach lucky-number-app /ping endpoint: '' @ message err),
           Line ''Startup aborted: lucky-number-app is not reachable.'']" by simp
next
  fix res data v
  assume "net \<lparr>url = PING_URL e, timeout = Some 2000\<rparr> = Inr res \<and> ok res
            \<and> f_json res = Inr data \<and> get_prop data ''status'' = Inr v
            \<and> v \<noteq> Some (JStr ''ok'')"
  with check_caught [of net e _ res data v] have "checkLuckyNumberApp net e =
      (False,
       [Line ''Could not reach lucky-number-app /ping endpoint: Ping returned unexpected status''])"
    by blast
  from start_frontend_abort [OF this]
  show "console (start_frontend net os e) =
          [Line ''Could not reach lucky-number-app /ping endpoint: Ping returned unexpected status'',
           Line ''Startup aborted: lucky-number-app is not reachable.'']" by simp
next
  from check_False_console [OF assms] obtain m where
    "snd (checkLuckyNumberApp net e) =
       [Line (''Could not reach lucky-number-app /ping endpoint: '' @ m)]"
    by blast
  with assms have "checkLuckyNumberApp net e =
      (False, [Line (''Could not reach lucky-number-app /ping endpoint: '' @ m)])"
    by (cases "checkLuckyNumberApp net e") simp
  from start_frontend_abort [OF this] have st: "start_frontend net os e =
      \<lparr>console = [Line (''Could not reach lucky-number-app /ping endpoint: '' @ m),
                  Line ''Startup aborted: lucky-number-app is not reachable.''],
       exit_code = Some 1, listening = None\<rparr>" by simp
  show "exit_code (start_frontend net os e) = Some 1" by (simp add: st)
  show "listening (start_frontend net os e) = None" by (simp add: st)
  fix net' render path
  show "web_get net' render e (start_frontend net os e) path = None"
    by (simp add: st web_get_def)
qed

text \<open>
  The backend was never started and the connection of the probe is refused; the backend
  answers 503; the backend answers 200 with a document that reports \<^verbatim>\<open>starting\<close>.
\<close>

theorem abort_exits_without_listening_witness:
  "fst (checkLuckyNumberApp (\<lambda>rq. Inl (FetchError ''connect ECONNREFUSED'')) Map.empty) = False
   \<and> start_frontend (\<lambda>rq. Inl (FetchError ''connect ECONNREFUSED'')) (\<lambda>port. Bound) Map.empty =
        \<lparr>console =
           [Line ''Could not reach lucky-number-app /ping endpoint: connect ECONNREFUSED'',
            Line ''Startup aborted: lucky-number-app is not reachable.''],
         exit_code = Some 1, listening = None\<rparr>
   \<and> web_get (\<lambda>rq. Inr \<lparr>f_status = 200, f_json = Inr (JObj [(''luckyNumber'', JNum 42)])\<rparr>)
        (\<lambda>el. Inr ''<div></div>'') Map.empty
        (start_frontend (\<lambda>rq. Inl (FetchError ''connect ECONNREFUSED'')) (\<lambda>port. Bound) Map.empty)
        ''/'' = None
   \<and> start_frontend
        (\<lambda>rq. Inr \<lparr>f_status = 503, f_json = Inr (JObj [(''status'', JStr ''ok'')])\<rparr>)
        (\<lambda>port. Bound) Map.empty =
        \<lparr>console =
           [Line ''Could not reach lucky-number-app /ping endpoint: Ping failed'',
            Line ''Startup aborted: lucky-number-app is not reachable.''],
         exit_code = Some 1, listening = None\<rparr>
   \<and> start_frontend
        (\<lambda>rq. Inr \<lparr>f_status = 200, f_json = Inr (JObj [(''status'', JStr ''starting'')])\<rparr>)
        (\<lambda>port. Bound) Map.empty =
        \<lparr>console =
           [Line ''Could not reach lucky-number-app /ping endpoint: Ping returned unexpected status'',
            Line ''Startup aborted: lucky-number-app is not reachable.''],
         exit_code = Some 1, listening = None\<rparr>"
proof -
  have h1: "fst (checkLuckyNumberApp (\<lambda>rq. Inl (FetchError ''connect ECONNREFUSED'')) Map.empty)
              = False"
    by (simp add: checkLuckyNumberApp_def)
  have h2: "fst (checkLuckyNumberApp
                  (\<lambda>rq. Inr \<lparr>f_status = 503, f_json = Inr (JObj [(''status'', JStr ''ok'')])\<rparr>)
                  Map.empty) = False"
    by (simp add: checkLuckyNumberApp_def ok_def)
  have h3: "fst (checkLuckyNumberApp
                  (\<lambda>rq. Inr \<lparr>f_status = 200, f_json = Inr (JObj [(''status'', JStr ''starting'')])\<rparr>)
                  Map.empty) = False"
    by (simp add: checkLuckyNumberApp_def ok_def)
  from abort_exits_without_listening [OF h1, of "\<lambda>port. Bound"]
    abort_exits_without_listening [OF h2, of "\<lambda>port. Bound"]
    abort_exits_without_listening [OF h3, of "\<lambda>port. Bound"] h1
  show ?thesis
    by (simp add: start_frontend_def checkLuckyNumberApp_def ok_def web_get_def)
qed

text \<open>
  Claim C2 as stated (the diagnostic names the probed address) fails when the backend
  answers the probe with a failure status: the two lines printed are fixed text and the
  message \<^verbatim>\<open>Ping failed\<close>, and hold neither the probe URL nor its host.
\<close>

theorem abort_console_without_address_counterexample:
  "fst (checkLuckyNumberApp
          (\<lambda>rq. Inr \<lparr>f_status = 503, f_json = Inr (JObj [(''status'', JStr ''down'')])\<rparr>)
          [''LUCKY_API_URL'' \<mapsto> ''http://10.0.0.7:3001/lucky'']) = False
   \<and> PING_URL [''LUCKY_API_URL'' \<mapsto> ''http://10.0.0.7:3001/lucky''] = ''http://10.0.0.7:3001/ping''
   \<and> console (start_frontend
          (\<lambda>rq. Inr \<lparr>f_status = 503, f_json = Inr (JObj [(''status'', JStr ''down'')])\<rparr>)
          (\<lambda>port. Bound)
          [''LUCKY_API_URL'' \<mapsto> ''http://10.0.0.7:3001/lucky'']) =
        [Line ''Could not reach lucky-number-app /ping endpoint: Ping failed'',
         Line ''Startup aborted: lucky-number-app is not reachable.'']
   \<and> \<not> list_ex (names_address ''http://10.0.0.7:3001/ping'')
          (console (start_frontend
             (\<lambda>rq. Inr \<lparr>f_status = 503, f_json = Inr (JObj [(''status'', JStr ''down'')])\<rparr>)
             (\<lambda>port. Bound)
             [''LUCKY_API_URL'' \<mapsto> ''http://10.0.0.7:3001/lucky'']))
   \<and> \<not> list_ex (names_address ''10.0.0.7'')
          (console (start_frontend
             (\<lambda>rq. Inr \<lparr>f_status = 503, f_json = Inr (JObj [(''status'', JStr ''down'')])\<rparr>)
             (\<lambda>port. Bound)
             [''LUCKY_API_URL'' \<mapsto> ''http://10.0.0.7:3001/lucky'']))"
  by (simp add: start_frontend_def checkLuckyNumberApp_def PING_URL_def LUCKY_API_URL_def
      env_or_def ok_def names_address_def sublist_Cons_right)

subsection \<open>The request forwarder\<close>

lemma root_handler_cases:
  "root_handler net render e =
     (case net \<lparr>url = LUCKY_API_URL e, timeout = None\<rparr> of
        Inl err \<Rightarrow> (\<lparr>status = 500, body = Text ''Failed to fetch lucky number''\<rparr>, [Dump err])
      | Inr response \<Rightarrow>
          (case f_json response of
             Inl err \<Rightarrow> (\<lparr>status = 500, body = Text ''Failed to fetch lucky number''\<rparr>, [Dump err])
           | Inr data \<Rightarrow>
               (case get_prop data ''luckyNumber'' of
                  Inl err \<Rightarrow>
                    (\<lparr>status = 500, body = Text ''Failed to fetch lucky number''\<rparr>, [Dump err])
                | Inr number \<Rightarrow>
                    (case render (LuckyPage number) of
                       Inl err \<Rightarrow>
                         (\<lparr>status = 500, body = Text ''Failed to fetch lucky number''\<rparr>, [Dump err])
                     | Inr html \<Rightarrow> (\<lparr>status = 200, body = Text (page html)\<rparr>, [])))))"
  by (simp add: root_handler_def split: sum.splits)

text \<open>
  Claim C8: on a frontend that is serving, every failure of the call to the backend (the
  request is rejected, the body does not parse, the document has no properties to read, or
  the renderer throws) is answered with status 500 and the fixed text, the error is
  printed to the console, and the process goes on: every request to \<^verbatim>\<open>/\<close> gets a reply, and
  the process has not exited and still listens afterwards.
\<close>

theorem forwarder_failure_is_500:
  assumes "exit_code st = None" and "listening st = Some port"
  shows "((net \<lparr>url = LUCKY_API_URL e, timeout = None\<rparr> = Inl err
            \<or> (\<exists>res. net \<lparr>url = LUCKY_API_URL e, timeout = None\<rparr> = Inr res
                  \<and> (f_json res = Inl err
                      \<or> (\<exists>data. f_json res = Inr data
                            \<and> (get_prop data ''luckyNumber'' = Inl err
                                \<or> (\<exists>number. get_prop data ''luckyNumber'' = Inr number
                                      \<and> render (LuckyPage number) = Inl err))))))
          \<longrightarrow> web_get net render e st ''/'' =
                Some (\<lparr>status = 500, body = Text ''Failed to fetch lucky number''\<rparr>,
                      st\<lparr>console := console st @ [Dump err]\<rparr>))
         \<and> (\<exists>r st'. web_get net render e st ''/'' = Some (r, st')
               \<and> exit_code st' = None \<and> listening st' = Some port)"
  using assms
  by (auto simp: web_get_def root_handler_cases split: sum.splits)

text \<open>
  A serving frontend (the gate got the affirmative answer), a request to \<^verbatim>\<open>/\<close> whose call
  to the backend is cut, and one whose document makes the renderer throw.
\<close>

theorem forwarder_failure_is_500_witness:
  "start_frontend (\<lambda>rq. Inr \<lparr>f_status = 200, f_json = Inr (JObj [(''status'', JStr ''ok'')])\<rparr>)
       (\<lambda>port. if port = ''4000'' then Bound else Fails 1) Map.empty
     = \<lparr>console = [Line ''Lucky Web App running on port 4000''], exit_code = None,
        listening = Some ''4000''\<rparr>
   \<and> web_get (\<lambda>rq. Inl (FetchError ''socket hang up'')) (\<lambda>el. Inr ''<div></div>'') Map.empty
        \<lparr>console = [Line ''Lucky Web App running on port 4000''], exit_code = None,
         listening = Some ''4000''\<rparr> ''/''
     = Some (\<lparr>status = 500, body = Text ''Failed to fetch lucky number''\<rparr>,
             \<lparr>console = [Line ''Lucky Web App running on port 4000'',
                         Dump (FetchError ''socket hang up'')],
              exit_code = None, listening = Some ''4000''\<rparr>)
   \<and> web_get (\<lambda>rq. Inr \<lparr>f_status = 200, f_json = Inr (JObj [(''luckyNumber'', JObj [])])\<rparr>)
        (\<lambda>el. Inl (Error ''Objects are not valid as a React child'')) Map.empty
        \<lparr>console = [Line ''Lucky Web App running on port 4000''], exit_code = None,
         listening = Some ''4000''\<rparr> ''/''
     = Some (\<lparr>status = 500, body = Text ''Failed to fetch lucky number''\<rparr>,
             \<lparr>console = [Line ''Lucky Web App running on port 4000'',
                         Dump (Error ''Objects are not valid as a React child'')],
              exit_code = None, listening = Some ''4000''\<rparr>)"
  using
    forwarder_failure_is_500
      [of "\<lparr>console = [Line ''Lucky Web App running on port 4000''], exit_code = None,
           listening = Some ''4000''\<rparr>" "''4000''"
          "\<lambda>rq. Inl (FetchError ''socket hang up'')" Map.empty "FetchError ''socket hang up''"
          "\<lambda>el. Inr ''<div></div>''"]
    forwarder_failure_is_500
      [of "\<lparr>console = [Line ''Lucky Web App running on port 4000''], exit_code = None,
           listening = Some ''4000''\<rparr>" "''4000''"
          "\<lambda>rq. Inr \<lparr>f_status = 200, f_json = Inr (JObj [(''luckyNumber'', JObj [])])\<rparr>"
          Map.empty "Error ''Objects are not valid as a React child''"
          "\<lambda>el. Inl (Error ''Objects are not valid as a React child'')"]
  by (simp add: start_frontend_def checkLuckyNumberApp_def ok_def web_PORT_def env_or_def)

text \<open>
  Claim C9, as the code has it: when the backend's response parses to a JSON value other
  than \<^verbatim>\<open>null\<close>, the forwarder checks neither the status of the response nor the shape of
  the document.  It hands \<^verbatim>\<open>data.luckyNumber\<close> (\<^verbatim>\<open>undefined\<close> when the document is not an
  object or has no such member, and whatever the member is otherwise) to the renderer, and
  replies 200 with the page whenever the renderer returns.
\<close>

theorem forwarder_does_not_validate:
  assumes "net \<lparr>url = LUCKY_API_URL e, timeout = None\<rparr> = Inr res"
    and "f_json res = Inr data" and "data \<noteq> JNull"
  shows "\<exists>number. get_prop data ''luckyNumber'' = Inr number
           \<and> ((\<forall>kvs. data \<noteq> JObj kvs) \<longrightarrow> number = None)
           \<and> (\<forall>html. render (LuckyPage number) = Inr html \<longrightarrow>
                 root_handler net render e = (\<lparr>status = 200, body = Text (page html)\<rparr>, []))"
  using assms
  by (cases data) (simp_all add: root_handler_cases)

text \<open>
  A document without the member, and one whose member is a string sent with status 500:
  both are answered with 200.
\<close>

theorem forwarder_does_not_validate_witness:
  "get_prop (JObj [(''status'', JStr ''ok'')]) ''luckyNumber'' = Inr None
   \<and> root_handler (\<lambda>rq. Inr \<lparr>f_status = 200, f_json = Inr (JObj [(''status'', JStr ''ok'')])\<rparr>)
        (\<lambda>el. Inr ''<div></div>'') Map.empty
       = (\<lparr>status = 200, body = Text (page ''<div></div>'')\<rparr>, [])
   \<and> get_prop (JObj [(''luckyNumber'', JStr ''seven'')]) ''luckyNumber'' = Inr (Some (JStr ''seven''))
   \<and> root_handler
        (\<lambda>rq. Inr \<lparr>f_status = 500, f_json = Inr (JObj [(''luckyNumber'', JStr ''seven'')])\<rparr>)
        (\<lambda>el. Inr ''<div></div>'') Map.empty
       = (\<lparr>status = 200, body = Text (page ''<div></div>'')\<rparr>, [])"
  using
    forwarder_does_not_validate
      [of "\<lambda>rq. Inr \<lparr>f_status = 200, f_json = Inr (JObj [(''status'', JStr ''ok'')])\<rparr>"
          Map.empty "\<lparr>f_status = 200, f_json = Inr (JObj [(''status'', JStr ''ok'')])\<rparr>"
          "JObj [(''status'', JStr ''ok'')]" "\<lambda>el. Inr ''<div></div>''"]
    forwarder_does_not_validate
      [of "\<lambda>rq. Inr \<lparr>f_status = 500, f_json = Inr (JObj [(''luckyNumber'', JStr ''seven'')])\<rparr>"
          Map.empty "\<lparr>f_status = 500, f_json = Inr (JObj [(''luckyNumber'', JStr ''seven'')])\<rparr>"
          "JObj [(''luckyNumber'', JStr ''seven'')]" "\<lambda>el. Inr ''<div></div>''"]
  by simp

text \<open>
  Claim C9 as stated (every response that parses as JSON and lacks the member is answered
  with 200) fails for the document \<^verbatim>\<open>null\<close>: it parses, \<^verbatim>\<open>data.luckyNumber\<close> throws, and the
  reply is 500.
\<close>

theorem forwarder_null_document_counterexample:
  "fst (root_handler (\<lambda>rq. Inr \<lparr>f_status = 200, f_json = Inr JNull\<rparr>)
          (\<lambda>el. Inr ''<div></div>'') Map.empty)
     = \<lparr>status = 500, body = Text ''Failed to fetch lucky number''\<rparr>"
  by (simp add: root_handler_def)

section \<open>Properties of the backend\<close>

subsection \<open>Rounding to binary64\<close>

lemma round_even_of_int [simp]: "round_even (of_int n) = n"
  by (simp add: round_even_def)

lemma round_even_ge: "of_int n \<le> y \<Longrightarrow> n \<le> round_even y"
proof -
  assume "of_int n \<le> y"
  then have "n \<le> \<lfloor>y\<rfloor>" by (simp add: le_floor_iff)
  then show ?thesis unfolding round_even_def Let_def by auto
qed

lemma round_even_le_half:
  assumes "y < of_int n + 1 / 2"
  shows "round_even y \<le> n"
proof (cases "y - of_int \<lfloor>y\<rfloor> < 1 / 2")
  case True
  from assms have "y < of_int n + 1" by simp
  then have "\<lfloor>y\<rfloor> \<le> n" by (simp add: floor_le_iff)
  with True show ?thesis by (simp add: round_even_def)
next
  case False
  with assms have "of_int \<lfloor>y\<rfloor> < (of_int n :: real)" by linarith
  then have "\<lfloor>y\<rfloor> < n" by simp
  then show ?thesis unfolding round_even_def Let_def by auto
qed

lemma ulp_pos [simp]: "0 < ulp x"
  by (simp add: ulp_def)

lemma floor_log2_le:
  assumes "0 < x" and "x < 2 ^ n"
  shows "\<lfloor>log 2 x\<rfloor> \<le> int n - 1"
proof -
  from assms have "log 2 x < real n"
    by (simp add: log_less_iff powr_realpow)
  then have "\<lfloor>log 2 x\<rfloor> < int n"
    by (subst floor_less_iff) simp
  then show ?thesis by linarith
qed

lemma floor_log2_ge:
  assumes "2 ^ n \<le> x"
  shows "int n \<le> \<lfloor>log 2 x\<rfloor>"
proof -
  have "(0::real) < 2 ^ n" by simp
  with assms have "0 < x" by linarith
  with assms have "real n \<le> log 2 x"
    by (simp add: le_log_iff powr_realpow)
  then show ?thesis by (simp add: le_floor_iff)
qed

lemma ulp_binade6: 
  assumes "64 \<le> x" and "x < 128"
  shows "ulp x = 1 / 2 ^ 46"
proof -
  from assms have "(2::real) ^ 6 \<le> x" and "0 < x" and "x < 2 ^ 7" by simp_all
  from floor_log2_ge [OF this(1)] have "6 \<le> \<lfloor>log 2 x\<rfloor>" by simp
  moreover from floor_log2_le [OF \<open>0 < x\<close> \<open>x < 2 ^ 7\<close>] have "\<lfloor>log 2 x\<rfloor> \<le> 6" by simp
  ultimately have "\<lfloor>log 2 x\<rfloor> = 6" by linarith
  moreover from assms have "\<bar>x\<bar> = x" by simp
  ultimately show ?thesis by (simp add: ulp_def powr_neg_numeral)
qed

lemma ulp_dyadic:
  assumes "0 < x" and "x < 128"
  shows "\<exists>m\<ge>46. ulp x = 1 / 2 ^ m"
proof -
  from assms have "x < 2 ^ 7" by simp
  from floor_log2_le [OF assms(1) this] have e: "\<lfloor>log 2 x\<rfloor> \<le> 6" by simp
  define u where "u = max (\<lfloor>log 2 x\<rfloor> - 52) (- 1074)"
  from e have u: "u \<le> - 46" unfolding u_def by linarith
  define m where "m = nat (- u)"
  from u have m: "46 \<le> m" and um: "real_of_int u = - real m"
    by (simp_all add: m_def)
  from assms have "\<bar>x\<bar> = x" by simp
  then have "ulp x = 2 powr real_of_int u" by (simp add: ulp_def u_def)
  then have "ulp x = 2 powr (- real m)" by (simp only: um)
  also have "\<dots> = 1 / 2 ^ m"
    by (simp add: powr_minus powr_realpow inverse_eq_divide)
  finally show ?thesis using m by blast
qed

lemma fl_pos_eq: "0 < x \<Longrightarrow> fl x = of_int (round_even (x / ulp x)) * ulp x"
  by (simp add: fl_def)

lemma fl_zero [simp]: "fl 0 = 0"
  by (simp add: fl_def)

lemma fl_upper_barrier:
  assumes "0 < x" and "x < 128" and "x \<le> of_int k / 2 ^ 46"
  shows "fl x \<le> of_int k / 2 ^ 46"
proof -
  from ulp_dyadic [OF assms(1,2)] obtain m where m: "46 \<le> m" and u: "ulp x = 1 / 2 ^ m"
    by blast
  from m have split: "(2::real) ^ m = 2 ^ 46 * 2 ^ (m - 46)"
    by (metis le_add_diff_inverse power_add)
  have "x / ulp x = x * 2 ^ m" by (simp add: u)
  also from assms(3) have "\<dots> \<le> of_int k / 2 ^ 46 * 2 ^ m"
    by (simp add: mult_right_mono)
  also have "\<dots> = of_int (k * 2 ^ (m - 46))" by (simp add: split)
  finally have "x / ulp x < of_int (k * 2 ^ (m - 46)) + 1 / 2" by simp
  then have "round_even (x / ulp x) \<le> k * 2 ^ (m - 46)" by (rule round_even_le_half)
  then have "real_of_int (round_even (x / ulp x)) \<le> real_of_int (k * 2 ^ (m - 46))"
    by (rule iffD2 [OF of_int_le_iff])
  then have "fl x \<le> real_of_int (k * 2 ^ (m - 46)) * ulp x"
    by (simp add: fl_pos_eq [OF assms(1)] mult_right_mono)
  also have "\<dots> = of_int k / 2 ^ 46" by (simp add: u split)
  finally show ?thesis .
qed

lemma fl_lower_barrier:
  assumes "0 < x" and "x < 128" and "of_int k / 2 ^ 46 \<le> x"
  shows "of_int k / 2 ^ 46 \<le> fl x"
proof -
  from ulp_dyadic [OF assms(1,2)] obtain m where m: "46 \<le> m" and u: "ulp x = 1 / 2 ^ m"
    by blast
  from m have split: "(2::real) ^ m = 2 ^ 46 * 2 ^ (m - 46)"
    by (metis le_add_diff_inverse power_add)
  have "real_of_int (k * 2 ^ (m - 46)) = of_int k / 2 ^ 46 * 2 ^ m" by (simp add: split)
  also from assms(3) have "\<dots> \<le> x * 2 ^ m"
    by (simp add: mult_right_mono)
  also have "\<dots> = x / ulp x" by (simp add: u)
  finally have "k * 2 ^ (m - 46) \<le> round_even (x / ulp x)" by (rule round_even_ge)
  then have "real_of_int (k * 2 ^ (m - 46)) \<le> real_of_int (round_even (x / ulp x))"
    by (rule iffD2 [OF of_int_le_iff])
  then have "real_of_int (k * 2 ^ (m - 46)) * ulp x \<le> fl x"
    by (simp add: fl_pos_eq [OF assms(1)] mult_right_mono)
  moreover have "real_of_int (k * 2 ^ (m - 46)) * ulp x = of_int k / 2 ^ 46"
    by (simp add: u split)
  ultimately show ?thesis by (simp only:)
qed

lemma fl_half_rule:
  assumes "64 \<le> x" and "x < 128" and "x < (of_int k + 1 / 2) / 2 ^ 46"
  shows "fl x \<le> of_int k / 2 ^ 46"
proof -
  from assms have pos: "0 < x" by simp
  have u: "ulp x = 1 / 2 ^ 46" by (rule ulp_binade6 [OF assms(1,2)])
  from assms(3) have "x * 2 ^ 46 < of_int k + 1 / 2"
    by (simp add: field_simps)
  then have "x / ulp x < of_int k + 1 / 2" by (simp add: u)
  then have "round_even (x / ulp x) \<le> k" by (rule round_even_le_half)
  then have "real_of_int (round_even (x / ulp x)) \<le> real_of_int k"
    by (rule iffD2 [OF of_int_le_iff])
  then show ?thesis
    by (simp add: fl_pos_eq [OF pos] u divide_right_mono)
qed

lemma ulp_below_one:
  assumes "1 / 2 \<le> x" and "x < 1"
  shows "ulp x = 1 / 2 ^ 53"
proof -
  from assms have pos: "0 < x" by simp
  from assms(2) pos have "log 2 x < 0" by simp
  then have "\<lfloor>log 2 x\<rfloor> < 0" by (subst floor_less_iff) simp
  moreover from assms(1) pos have "- 1 \<le> log 2 x"
    by (simp add: le_log_iff powr_minus inverse_eq_divide)
  then have "- 1 \<le> \<lfloor>log 2 x\<rfloor>" by (subst le_floor_iff) simp
  ultimately have "\<lfloor>log 2 x\<rfloor> = - 1" by linarith
  moreover from pos have "\<bar>x\<bar> = x" by simp
  ultimately show ?thesis by (simp add: ulp_def powr_neg_numeral)
qed

lemma binary64_below_one:
  assumes "fl r = r" and "r < 1"
  shows "r \<le> 1 - 1 / 2 ^ 53"
proof (cases "r < 1 / 2")
  case True
  then show ?thesis by simp
next
  case False
  then have ge: "1 / 2 \<le> r" and pos: "0 < r" by simp_all
  have u: "ulp r = 1 / 2 ^ 53" by (rule ulp_below_one [OF ge assms(2)])
  define K where "K = round_even (r / ulp r)"
  from assms(1) have r: "r = of_int K / 2 ^ 53"
    by (simp add: fl_pos_eq [OF pos] u K_def)
  with assms(2) have "real_of_int K < 2 ^ 53" by (simp add: field_simps)
  then have "real_of_int K < real_of_int (2 ^ 53)" by simp
  then have "K < 2 ^ 53" by (rule iffD1 [OF of_int_less_iff])
  then have "K \<le> 2 ^ 53 - 1" by simp
  then have "real_of_int K \<le> real_of_int (2 ^ 53 - 1)" by (rule iffD2 [OF of_int_le_iff])
  then have "real_of_int K / 2 ^ 53 \<le> real_of_int (2 ^ 53 - 1) / 2 ^ 53"
    by (rule divide_right_mono) simp
  with r show ?thesis by simp
qed

lemma fl_on_grid:
  assumes "0 < x" and "x < 128" and "x = of_int k / 2 ^ 46"
  shows "fl x = x"
proof -
  from assms(3) have "x \<le> of_int k / 2 ^ 46" and "of_int k / 2 ^ 46 \<le> x" by simp_all
  from fl_upper_barrier [OF assms(1,2) this(1)] fl_lower_barrier [OF assms(1,2) this(2)]
  have "fl x = of_int k / 2 ^ 46" by (rule antisym)
  with assms(3) show ?thesis by (simp only:)
qed

lemma fl_half: "fl (1 / 2) = 1 / 2"
proof -
  have "ulp (1 / 2) = 1 / 2 ^ 53" by (rule ulp_below_one) simp_all
  moreover have "(1 / 2 :: real) / (1 / 2 ^ 53) = real_of_int (2 ^ 52)" by simp
  ultimately have "round_even ((1 / 2) / ulp (1 / 2)) = 2 ^ 52"
    by (simp only: round_even_of_int)
  with \<open>ulp (1 / 2) = 1 / 2 ^ 53\<close> show ?thesis
    by (simp add: fl_pos_eq)
qed

lemma luckyNumber_bounds:
  assumes "0 \<le> r" and "r \<le> 1 - 1 / 2 ^ 53"
  shows "10 \<le> luckyNumber r \<and> luckyNumber r \<le> 99"
proof -
  define q where "q = fl (r * 90)"
  have q: "0 \<le> q \<and> q \<le> 90 - 1 / 2 ^ 46"
  proof (cases "r * 90 = 0")
    case True
    then show ?thesis by (simp add: q_def)
  next
    case False
    with assms(1) have pos: "0 < r * 90" by simp
    from assms(2) have lt: "r * 90 < 128" by simp
    from pos have "of_int 0 / 2 ^ 46 \<le> r * 90" by simp
    from fl_lower_barrier [OF pos lt this] have q0: "0 \<le> q" by (simp add: q_def)
    show ?thesis
    proof (cases "r * 90 < 64")
      case True
      then have "r * 90 \<le> of_int (64 * 2 ^ 46) / 2 ^ 46" by simp
      from fl_upper_barrier [OF pos lt this] have "q \<le> 64" by (simp add: q_def)
      with q0 show ?thesis by simp
    next
      case False
      then have ge: "64 \<le> r * 90" by simp
      from assms(2) have "r * 90 \<le> 90 - 90 / 2 ^ 53" by simp
      also have "\<dots> < (of_int (90 * 2 ^ 46 - 1) + 1 / 2) / 2 ^ 46" by simp
      finally have "r * 90 < (of_int (90 * 2 ^ 46 - 1) + 1 / 2) / 2 ^ 46" .
      from fl_half_rule [OF ge lt this] have "q \<le> of_int (90 * 2 ^ 46 - 1) / 2 ^ 46"
        by (simp add: q_def)
      also have "\<dots> = 90 - 1 / 2 ^ 46" by simp
      finally show ?thesis using q0 by simp
    qed
  qed
  then have pos: "0 < 10 + q" and lt: "10 + q < 128" by simp_all
  from q have "of_int (10 * 2 ^ 46) / 2 ^ 46 \<le> 10 + q" by simp
  from fl_lower_barrier [OF pos lt this] have lo: "10 \<le> fl (10 + q)" by simp
  from q have "10 + q \<le> of_int (100 * 2 ^ 46 - 1) / 2 ^ 46" by simp
  from fl_upper_barrier [OF pos lt this] have "fl (10 + q) \<le> of_int (100 * 2 ^ 46 - 1) / 2 ^ 46" .
  also have "\<dots> < 100" by simp
  finally have hi: "fl (10 + q) < 100" .
  from lo have "10 \<le> \<lfloor>fl (10 + q)\<rfloor>" by (simp add: le_floor_iff)
  moreover from hi have "\<lfloor>fl (10 + q)\<rfloor> < 100" by (simp add: floor_less_iff)
  ultimately show ?thesis by (simp add: luckyNumber_def q_def)
qed

lemma luckyNumber_close:
  assumes "0 \<le> r" and "r < 1"
  shows "luckyNumber r = \<lfloor>10 + r * 90\<rfloor> \<or> luckyNumber r = \<lfloor>10 + r * 90\<rfloor> + 1"
proof -
  define N where "N = \<lfloor>10 + r * 90\<rfloor>"
  define q where "q = fl (r * 90)"
  have N: "of_int N \<le> 10 + r * 90" "10 + r * 90 < of_int N + 1"
    unfolding N_def by linarith+
  have q: "of_int N - 10 \<le> q \<and> q \<le> of_int N - 9"
  proof (cases "r * 90 = 0")
    case True
    with N have "N = 10" by simp
    with True show ?thesis by (simp add: q_def)
  next
    case False
    with assms(1) have pos: "0 < r * 90" by simp
    from assms(2) have lt: "r * 90 < 128" by simp
    from N(1) have "of_int ((N - 10) * 2 ^ 46) / 2 ^ 46 \<le> r * 90" by simp
    from fl_lower_barrier [OF pos lt this] have "of_int N - 10 \<le> q" by (simp add: q_def)
    moreover from N(2) have "r * 90 \<le> of_int ((N - 9) * 2 ^ 46) / 2 ^ 46" by simp
    from fl_upper_barrier [OF pos lt this] have "q \<le> of_int N - 9" by (simp add: q_def)
    ultimately show ?thesis by simp
  qed
  from assms N have Nlo: "10 \<le> N" and Nhi: "N < 100"
    by linarith+
  from q Nlo Nhi have pos: "0 < 10 + q" and lt: "10 + q < 128" by simp_all
  from q have "of_int (N * 2 ^ 46) / 2 ^ 46 \<le> 10 + q" by simp
  from fl_lower_barrier [OF pos lt this] have "of_int N \<le> fl (10 + q)" by simp
  then have lo: "N \<le> \<lfloor>fl (10 + q)\<rfloor>" by (simp add: le_floor_iff)
  from q have "10 + q \<le> of_int ((N + 1) * 2 ^ 46) / 2 ^ 46" by simp
  from fl_upper_barrier [OF pos lt this] have "fl (10 + q) \<le> of_int (N + 1)" by simp
  then have "\<lfloor>fl (10 + q)\<rfloor> \<le> N + 1" by (simp add: floor_le_iff)
  with lo show ?thesis
    unfolding luckyNumber_def q_def [symmetric] N_def [symmetric] by linarith
qed

lemma luckyNumber_half: "luckyNumber (1 / 2) = 55"
proof -
  have "fl 45 = 45" by (rule fl_on_grid [where k = "45 * 2 ^ 46"]) simp_all
  moreover have "fl 55 = 55" by (rule fl_on_grid [where k = "55 * 2 ^ 46"]) simp_all
  ultimately show ?thesis by (simp add: luckyNumber_def)
qed

lemma round_even_ge_half:
  assumes "of_int n - 1 / 2 < y"
  shows "n \<le> round_even y"
proof (cases "y - of_int \<lfloor>y\<rfloor> < 1 / 2")
  case True
  with assms have "real_of_int n < real_of_int \<lfloor>y\<rfloor> + 1" by linarith
  then have "real_of_int n < real_of_int (\<lfloor>y\<rfloor> + 1)" by simp
  then have "n < \<lfloor>y\<rfloor> + 1" by (rule iffD1 [OF of_int_less_iff])
  with True show ?thesis by (simp add: round_even_def)
next
  case False
  show ?thesis
  proof (cases "1 / 2 < y - of_int \<lfloor>y\<rfloor>")
    case True
    have "y < real_of_int \<lfloor>y\<rfloor> + 1" by linarith
    with assms have "real_of_int n < real_of_int \<lfloor>y\<rfloor> + 2" by linarith
    then have "real_of_int n < real_of_int (\<lfloor>y\<rfloor> + 2)" by simp
    then have "n < \<lfloor>y\<rfloor> + 2" by (rule iffD1 [OF of_int_less_iff])
    with False True show ?thesis by (simp add: round_even_def)
  next
    case tie: False
    with False have "y = real_of_int \<lfloor>y\<rfloor> + 1 / 2" by linarith
    with assms have "real_of_int n < real_of_int \<lfloor>y\<rfloor> + 1" by linarith
    then have "real_of_int n < real_of_int (\<lfloor>y\<rfloor> + 1)" by simp
    then have "n < \<lfloor>y\<rfloor> + 1" by (rule iffD1 [OF of_int_less_iff])
    with False tie show ?thesis by (simp add: round_even_def Let_def)
  qed
qed

lemma floor_log2_binade:
  assumes "2 powr of_int n \<le> x" and "x < 2 powr of_int (n + 1)"
  shows "\<lfloor>log 2 x\<rfloor> = n"
proof -
  have "0 < 2 powr real_of_int n" by simp
  with assms(1) have pos: "0 < x" by linarith
  from assms(1) pos have lo: "of_int n \<le> log 2 x" by (simp add: le_log_iff)
  from assms(2) pos have "log 2 x < of_int (n + 1)" by (simp add: log_less_iff)
  then have hi: "log 2 x < of_int n + 1" by simp
  from lo hi show ?thesis by (rule floor_unique)
qed

lemma ulp_8_16:
  assumes "8 \<le> x" and "x < 16"
  shows "ulp x = 1 / 2 ^ 49"
proof -
  have "\<lfloor>log 2 x\<rfloor> = 3"
    by (rule floor_log2_binade) (use assms in \<open>simp_all add: powr_numeral\<close>)
  moreover from assms have "\<bar>x\<bar> = x" by simp
  ultimately show ?thesis by (simp add: ulp_def powr_neg_numeral)
qed

lemma ulp_r0:
  assumes "1 / 2 ^ 7 \<le> x" and "x < 1 / 2 ^ 6"
  shows "ulp x = 1 / 2 ^ 59"
proof -
  have "\<lfloor>log 2 x\<rfloor> = - 7"
    by (rule floor_log2_binade) (use assms in \<open>simp_all add: powr_neg_numeral\<close>)
  moreover have "(0::real) < 1 / 2 ^ 7" by simp
  with assms have "\<bar>x\<bar> = x" by linarith
  ultimately show ?thesis by (simp add: ulp_def powr_neg_numeral)
qed

lemma ulp_32_64:
  assumes "32 \<le> x" and "x < 64"
  shows "ulp x = 1 / 2 ^ 47"
proof -
  have "\<lfloor>log 2 x\<rfloor> = 5"
    by (rule floor_log2_binade) (use assms in \<open>simp_all add: powr_numeral\<close>)
  moreover from assms have "\<bar>x\<bar> = x" by simp
  ultimately show ?thesis by (simp add: ulp_def powr_neg_numeral)
qed

lemma luckyNumber_in_cell:
  assumes "0 \<le> r" and "r < 1"
    and "(real_of_int k - 10) / 90 \<le> r" and "r \<le> (real_of_int k - 9 - 1 / 2 ^ 46) / 90"
  shows "luckyNumber r = k"
proof -
  define q where "q = fl (r * 90)"
  from assms(3) have klo: "real_of_int k - 10 \<le> r * 90" by (simp add: field_simps)
  from assms(4) have khi: "r * 90 \<le> real_of_int k - 9 - 1 / 2 ^ 46" by (simp add: field_simps)
  have q: "0 \<le> q \<and> real_of_int k - 10 \<le> q \<and> q \<le> real_of_int k - 9 - 1 / 2 ^ 46"
  proof (cases "r * 90 = 0")
    case True
    with klo khi have "real_of_int k \<le> 10" and "9 < real_of_int k" by simp_all
    then have "k \<le> 10" and "9 < k" by linarith+
    then have "k = 10" by simp
    with True show ?thesis by (simp add: q_def)
  next
    case False
    with assms(1) have pos: "0 < r * 90" by simp
    from assms(2) have lt: "r * 90 < 128" by simp
    from pos have "real_of_int 0 / 2 ^ 46 \<le> r * 90" by simp
    from fl_lower_barrier [OF pos lt this] have "0 \<le> q" by (simp add: q_def)
    moreover from klo have "real_of_int ((k - 10) * 2 ^ 46) / 2 ^ 46 \<le> r * 90" by simp
    from fl_lower_barrier [OF pos lt this] have "real_of_int k - 10 \<le> q" by (simp add: q_def)
    moreover from khi have "r * 90 \<le> real_of_int ((k - 9) * 2 ^ 46 - 1) / 2 ^ 46"
      by (simp add: field_simps)
    from fl_upper_barrier [OF pos lt this] have "q \<le> real_of_int k - 9 - 1 / 2 ^ 46"
      by (simp add: q_def field_simps)
    ultimately show ?thesis by simp
  qed
  from assms(2) klo have "real_of_int k < 100" by simp
  with q have pos: "0 < 10 + q" and lt: "10 + q < 128" by simp_all
  from q have "real_of_int (k * 2 ^ 46) / 2 ^ 46 \<le> 10 + q" by simp
  from fl_lower_barrier [OF pos lt this] have lo: "real_of_int k \<le> fl (10 + q)" by simp
  from q have "10 + q \<le> real_of_int ((k + 1) * 2 ^ 46 - 1) / 2 ^ 46" by (simp add: field_simps)
  from fl_upper_barrier [OF pos lt this]
  have "fl (10 + q) \<le> real_of_int ((k + 1) * 2 ^ 46 - 1) / 2 ^ 46" .
  also have "\<dots> < real_of_int k + 1" by (simp add: field_simps)
  finally have hi: "fl (10 + q) < real_of_int k + 1" .
  from lo hi have "\<lfloor>fl (10 + q)\<rfloor> = k" by (rule floor_unique)
  then show ?thesis by (simp add: luckyNumber_def q_def)
qed

lemma luckyNumber_cell_of:
  assumes "0 \<le> r" and "r < 1" and "luckyNumber r = k"
  shows "(real_of_int k - 10 - 1 / 2 ^ 46) / 90 < r \<and> r < (real_of_int k - 9) / 90"
proof -
  define N where "N = \<lfloor>10 + r * 90\<rfloor>"
  have N: "real_of_int N \<le> 10 + r * 90" "10 + r * 90 < real_of_int N + 1"
    unfolding N_def by linarith+
  from luckyNumber_close [OF assms(1,2)] assms(3) have "k = N \<or> k = N + 1"
    by (simp add: N_def)
  then show ?thesis
  proof
    assume "k = N"
    with N show ?thesis by (simp add: field_simps)
  next
    assume k: "k = N + 1"
    have "\<not> r \<le> (real_of_int N - 9 - 1 / 2 ^ 46) / 90"
    proof
      assume "r \<le> (real_of_int N - 9 - 1 / 2 ^ 46) / 90"
      moreover from N(1) have "(real_of_int N - 10) / 90 \<le> r" by (simp add: field_simps)
      ultimately have "luckyNumber r = N"
        using luckyNumber_in_cell [OF assms(1,2)] by blast
      with assms(3) k show False by simp
    qed
    then have "(real_of_int N - 9 - 1 / 2 ^ 46) / 90 < r" by simp
    moreover from N(2) have "r < (real_of_int N - 9) / 90" by (simp add: field_simps)
    ultimately show ?thesis by (simp add: k field_simps)
  qed
qed

lemma luckyNumber_below_first_boundary:
  assumes "6405119470038038 / 2 ^ 59 \<le> r" and "r < 1 / 90"
  shows "luckyNumber r = 11"
proof -
  define p where "p = r * 90"
  from assms(1) have plo: "1 - 68 / 2 ^ 59 \<le> p" by (simp add: p_def)
  from assms(2) have phi: "p < 1" by (simp add: p_def)
  from plo have half: "1 / 2 \<le> p" by simp
  then have pos: "0 < p" by simp
  have u: "ulp p = 1 / 2 ^ 53" by (rule ulp_below_one [OF half phi])
  from plo have "real_of_int (2 ^ 53 - 1) - 1 / 2 < p * 2 ^ 53" by simp
  then have "real_of_int (2 ^ 53 - 1) - 1 / 2 < p / ulp p" by (simp add: u)
  then have "2 ^ 53 - 1 \<le> round_even (p / ulp p)" by (rule round_even_ge_half)
  then have "real_of_int (2 ^ 53 - 1) \<le> real_of_int (round_even (p / ulp p))"
    by (rule iffD2 [OF of_int_le_iff])
  then have "real_of_int (2 ^ 53 - 1) / 2 ^ 53 \<le> real_of_int (round_even (p / ulp p)) / 2 ^ 53"
    by (rule divide_right_mono) simp
  then have qlo: "1 - 1 / 2 ^ 53 \<le> fl p"
    by (simp add: fl_pos_eq [OF pos] u)
  from phi have "p < 128" and "p \<le> real_of_int (2 ^ 46) / 2 ^ 46" by simp_all
  from fl_upper_barrier [OF pos this] have qhi: "fl p \<le> 1" by simp
  define s where "s = 10 + fl p"
  from qlo qhi have s8: "8 \<le> s" and s16: "s < 16" and spos: "0 < s" and s128: "s < 128"
    by (simp_all add: s_def)
  have us: "ulp s = 1 / 2 ^ 49" by (rule ulp_8_16 [OF s8 s16])
  from qlo have "real_of_int (11 * 2 ^ 49) - 1 / 2 < s * 2 ^ 49" by (simp add: s_def)
  then have "real_of_int (11 * 2 ^ 49) - 1 / 2 < s / ulp s" by (simp add: us)
  then have "11 * 2 ^ 49 \<le> round_even (s / ulp s)" by (rule round_even_ge_half)
  then have "real_of_int (11 * 2 ^ 49) \<le> real_of_int (round_even (s / ulp s))"
    by (rule iffD2 [OF of_int_le_iff])
  then have "real_of_int (11 * 2 ^ 49) / 2 ^ 49 \<le> real_of_int (round_even (s / ulp s)) / 2 ^ 49"
    by (rule divide_right_mono) simp
  then have lo: "11 \<le> fl s"
    by (simp add: fl_pos_eq [OF spos] us)
  from qhi have "s \<le> real_of_int (11 * 2 ^ 46) / 2 ^ 46" by (simp add: s_def)
  from fl_upper_barrier [OF spos s128 this] have hi: "fl s \<le> 11" by simp
  from lo hi have "fl s = 11" by simp
  then show ?thesis by (simp add: luckyNumber_def p_def s_def)
qed

lemma fl_r0: "fl (6405119470038038 / 2 ^ 59) = 6405119470038038 / 2 ^ 59"
proof -
  have u: "ulp (6405119470038038 / 2 ^ 59) = 1 / 2 ^ 59"
    by (rule ulp_r0) simp_all
  have "(6405119470038038 / 2 ^ 59 :: real) / (1 / 2 ^ 59) = real_of_int 6405119470038038"
    by simp
  then have "round_even ((6405119470038038 / 2 ^ 59) / ulp (6405119470038038 / 2 ^ 59))
               = 6405119470038038"
    by (simp only: u round_even_of_int)
  with u show ?thesis by (simp add: fl_pos_eq)
qed

lemma fl_r1: "fl (3102479743299675 / 2 ^ 52) = 3102479743299675 / 2 ^ 52"
proof -
  have u: "ulp (3102479743299675 / 2 ^ 52) = 1 / 2 ^ 53"
    by (rule ulp_below_one) simp_all
  have "(3102479743299675 / 2 ^ 52 :: real) / (1 / 2 ^ 53) = real_of_int 6204959486599350"
    by simp
  then have "round_even ((3102479743299675 / 2 ^ 52) / ulp (3102479743299675 / 2 ^ 52))
               = 6204959486599350"
    by (simp only: u round_even_of_int)
  with u show ?thesis by (simp add: fl_pos_eq)
qed

lemma luckyNumber_r1: "luckyNumber (3102479743299675 / 2 ^ 52) = 72"
proof -
  define p :: real where "p = 3102479743299675 / 2 ^ 52 * 90"
  have p: "p = 62 - 1 / 2 ^ 51" by (simp add: p_def)
  then have p32: "32 \<le> p" and p64: "p < 64" and pos: "0 < p" and p128: "p < 128"
    by simp_all
  have u: "ulp p = 1 / 2 ^ 47" by (rule ulp_32_64 [OF p32 p64])
  from p have "real_of_int (62 * 2 ^ 47) - 1 / 2 < p * 2 ^ 47" by simp
  then have "real_of_int (62 * 2 ^ 47) - 1 / 2 < p / ulp p" by (simp add: u)
  then have "62 * 2 ^ 47 \<le> round_even (p / ulp p)" by (rule round_even_ge_half)
  then have "real_of_int (62 * 2 ^ 47) \<le> real_of_int (round_even (p / ulp p))"
    by (rule iffD2 [OF of_int_le_iff])
  then have "real_of_int (62 * 2 ^ 47) / 2 ^ 47 \<le> real_of_int (round_even (p / ulp p)) / 2 ^ 47"
    by (rule divide_right_mono) simp
  then have lo: "62 \<le> fl p" by (simp add: fl_pos_eq [OF pos] u)
  from p have "p \<le> real_of_int (62 * 2 ^ 46) / 2 ^ 46" by simp
  from fl_upper_barrier [OF pos p128 this] have hi: "fl p \<le> 62" by simp
  from lo hi have "fl p = 62" by simp
  moreover have "fl 72 = 72" by (rule fl_on_grid [where k = "72 * 2 ^ 46"]) simp_all
  ultimately show ?thesis by (simp add: luckyNumber_def p_def)
qed

subsection \<open>The busy wait\<close>

lemma spin_Some_ge:
  "spin start ms ds now = Some t \<Longrightarrow> start + ms \<le> t"
  by (induction ds arbitrary: now) (auto split: if_splits)

lemma spin_returns:
  "start + ms \<le> now + sum_list ds \<Longrightarrow> \<exists>t. spin start ms ds now = Some t"
proof (induction ds arbitrary: now)
  case Nil
  then show ?case by auto
next
  case (Cons d ds)
  show ?case
  proof (cases "int now - int start < int ms")
    case True
    from Cons.prems have "start + ms \<le> (now + d) + sum_list ds" by simp
    from Cons.IH [OF this] True show ?thesis by simp
  next
    case False
    then show ?thesis by simp
  qed
qed

lemma busyWait_Some_ge: "busyWait ms ticks now = Some t \<Longrightarrow> now + ms \<le> t"
  by (auto simp: busyWait_def split: list.splits dest: spin_Some_ge)

lemma busyWait_returns: "ms \<le> sum_list ticks \<Longrightarrow> ticks \<noteq> [] \<Longrightarrow> \<exists>t. busyWait ms ticks now = Some t"
  by (cases ticks) (auto simp: busyWait_def intro!: spin_returns)

lemma spin_Some_lt:
  "spin start ms ds now = Some t \<Longrightarrow> now < start + ms + g \<Longrightarrow> \<forall>d\<in>set ds. d \<le> g
     \<Longrightarrow> t < start + ms + g"
proof (induction ds arbitrary: now)
  case Nil
  then show ?case by (auto split: if_splits)
next
  case (Cons d ds)
  show ?case
  proof (cases "int now - int start < int ms")
    case True
    with Cons.prems(1) have s: "spin start ms ds (now + d) = Some t" by simp
    from True Cons.prems(3) have "now + d < start + ms + g" by auto
    from Cons.IH [OF s this] Cons.prems(3) show ?thesis by simp
  next
    case False
    with Cons.prems(1,2) show ?thesis by simp
  qed
qed

lemma busyWait_Some_lt:
  assumes "busyWait ms ticks now = Some t" and "0 < ms" and "\<forall>d\<in>set ticks. d \<le> g"
  shows "t < now + ms + g"
proof (cases ticks)
  case Nil
  with assms(1) show ?thesis by (simp add: busyWait_def)
next
  case (Cons d ds)
  with assms(1) have s: "spin now ms ds (now + d) = Some t" by (simp add: busyWait_def)
  from Cons assms(2,3) have "now + d < now + ms + g" and "\<forall>d\<in>set ds. d \<le> g" by auto
  from spin_Some_lt [OF s this] show ?thesis .
qed

lemma lucky_handler_Some:
  assumes "lucky_handler e ticks r st = Some (rp, st')"
  shows "\<exists>t. busyWait 5000 ticks (b_now st) = Some t
           \<and> rp = \<lparr>status = 200, body = Json (JObj [(''luckyNumber'', JNum (of_int (luckyNumber r)))])\<rparr>
           \<and> st' = st\<lparr>b_now := t,
                      b_log := b_log st @
                        [(b_now st, ''Running on pod: '' @ podName e),
                         (b_now st, ''Received request for lucky number in pod '' @ podName e @ ''...''),
                         (t, ''Generated lucky number: '' @ show_int (luckyNumber r) @ '' in pod ''
                               @ podName e)]\<rparr>"
  using assms
  by (auto simp: lucky_handler_def console_log_def Let_def split: option.splits)

lemma lucky_handler_returns:
  assumes "busyWait 5000 ticks (b_now st) = Some t"
  shows "\<exists>rp st'. lucky_handler e ticks r st = Some (rp, st')"
  using assms
  by (simp add: lucky_handler_def console_log_def Let_def)

text \<open>
  Claim C7: a GET of \<^verbatim>\<open>/lucky\<close> on a listening backend is answered once the clock has
  moved by 5000 milliseconds during the wait, and whenever it is answered, the reply (and
  the line that prints the number drawn) comes at least 5000 milliseconds after the
  request was taken up: the two first lines are printed at the time of the request, the
  third at the time of the reply.
\<close>

theorem lucky_reply_after_delay:
  "(b_listening st \<noteq> None \<and> 5000 \<le> sum_list ticks \<longrightarrow>
      (\<exists>rp st'. api_get e st ''/lucky'' ticks r = Some (Answered rp, st')))
   \<and> (\<forall>rp st'. api_get e st ''/lucky'' ticks r = Some (Answered rp, st') \<longrightarrow>
         b_now st + 5000 \<le> b_now st'
         \<and> b_log st' = b_log st @
             [(b_now st, ''Running on pod: '' @ podName e),
              (b_now st, ''Received request for lucky number in pod '' @ podName e @ ''...''),
              (b_now st', ''Generated lucky number: '' @ show_int (luckyNumber r) @ '' in pod ''
                  @ podName e)]
         \<and> rp = \<lparr>status = 200,
                  body = Json (JObj [(''luckyNumber'', JNum (real_of_int (luckyNumber r)))])\<rparr>)"
proof (intro conjI allI impI)
  assume a: "b_listening st \<noteq> None \<and> 5000 \<le> sum_list ticks"
  then have "ticks \<noteq> []" by auto
  with a obtain t where "busyWait 5000 ticks (b_now st) = Some t"
    using busyWait_returns [of 5000 ticks "b_now st"] by blast
  from lucky_handler_returns [OF this] obtain rp st' where
    "lucky_handler e ticks r st = Some (rp, st')" by blast
  with a show "\<exists>rp st'. api_get e st ''/lucky'' ticks r = Some (Answered rp, st')"
    by (auto simp: api_get_def)
next
  fix rp st'
  assume "api_get e st ''/lucky'' ticks r = Some (Answered rp, st')"
  then have "lucky_handler e ticks r st = Some (rp, st')"
    by (auto simp: api_get_def split: option.splits)
  from lucky_handler_Some [OF this] obtain t where
    t: "busyWait 5000 ticks (b_now st) = Some t"
    and rp: "rp = \<lparr>status = 200,
                   body = Json (JObj [(''luckyNumber'', JNum (real_of_int (luckyNumber r)))])\<rparr>"
    and st': "st' = st\<lparr>b_now := t,
                      b_log := b_log st @
                        [(b_now st, ''Running on pod: '' @ podName e),
                         (b_now st, ''Received request for lucky number in pod '' @ podName e @ ''...''),
                         (t, ''Generated lucky number: '' @ show_int (luckyNumber r) @ '' in pod ''
                               @ podName e)]\<rparr>"
    by blast
  from busyWait_Some_ge [OF t] st' show "b_now st + 5000 \<le> b_now st'" by simp
  from st' show "b_log st' = b_log st @
             [(b_now st, ''Running on pod: '' @ podName e),
              (b_now st, ''Received request for lucky number in pod '' @ podName e @ ''...''),
              (b_now st', ''Generated lucky number: '' @ show_int (luckyNumber r) @ '' in pod ''
                  @ podName e)]" by simp
  from rp show "rp = \<lparr>status = 200,
                  body = Json (JObj [(''luckyNumber'', JNum (real_of_int (luckyNumber r)))])\<rparr>" .
qed

text \<open>
  A request taken up at 5000 milliseconds whose wait reads the clock every 1700
  milliseconds: the third reading ends the wait, at 10100.
\<close>

theorem lucky_reply_after_delay_witness:
  "b_listening
      \<lparr>b_exit = None, b_now = 5000, b_timer = None, b_listening = Some ''3001'',
       b_log = [(0, ''App is starting... please wait''), (5000, ''App2 is ready!''),
                (5000, ''Server is running on port 3001'')]\<rparr> \<noteq> None
   \<and> (5000::nat) \<le> sum_list [1700, 1700, 1700]
   \<and> api_get [''POD_NAME'' \<mapsto> ''lucky-1'']
        \<lparr>b_exit = None, b_now = 5000, b_timer = None, b_listening = Some ''3001'',
         b_log = [(0, ''App is starting... please wait''), (5000, ''App2 is ready!''),
                  (5000, ''Server is running on port 3001'')]\<rparr>
        ''/lucky'' [1700, 1700, 1700] (1 / 2)
      = Some (Answered \<lparr>status = 200, body = Json (JObj [(''luckyNumber'', JNum 55)])\<rparr>,
              \<lparr>b_exit = None, b_now = 10100, b_timer = None, b_listening = Some ''3001'',
               b_log = [(0, ''App is starting... please wait''), (5000, ''App2 is ready!''),
                        (5000, ''Server is running on port 3001''),
                        (5000, ''Running on pod: lucky-1''),
                        (5000, ''Received request for lucky number in pod lucky-1...''),
                        (10100, ''Generated lucky number: 55 in pod lucky-1'')]\<rparr>)"
  using
    lucky_reply_after_delay
      [of "\<lparr>b_exit = None, b_now = 5000, b_timer = None, b_listening = Some ''3001'',
           b_log = [(0, ''App is starting... please wait''), (5000, ''App2 is ready!''),
                    (5000, ''Server is running on port 3001'')]\<rparr>"
          "[1700, 1700, 1700]" "[''POD_NAME'' \<mapsto> ''lucky-1'']" "1 / 2"]
  by (simp add: api_get_def lucky_handler_def busyWait_def console_log_def podName_def
      luckyNumber_half show_int_def)

subsection \<open>The number drawn\<close>

text \<open>
  Claim C5, as the code has it: for every draw \<open>r\<close> of \<^verbatim>\<open>Math.random()\<close>, a binary64 value
  in \<open>[0, 1)\<close>, the number is an integer from 10 to 99, and it is what every reply of
  \<^verbatim>\<open>/lucky\<close> carries.  It is drawn uniformly up to the rounding of the two operations:
  the value \<open>k\<close> is returned for every draw from \<open>(k - 10) / 90\<close> to
  \<open>(k - 9 - 1 / 2 ^ 46) / 90\<close>, and only for draws above \<open>(k - 10 - 1 / 2 ^ 46) / 90\<close> and below
  \<open>(k - 9) / 90\<close>.  The ninety sets of draws are intervals of length 1/90 up to
  \<open>1 / (90 * 2 ^ 46)\<close> at each end, not exactly equal ones.
\<close>

theorem lucky_number_in_bounds_nearly_uniform:
  "(fl r = r \<and> 0 \<le> r \<and> r < 1 \<longrightarrow>
      10 \<le> luckyNumber r \<and> luckyNumber r \<le> 99
      \<and> (\<forall>k. (real_of_int k - 10) / 90 \<le> r \<and> r \<le> (real_of_int k - 9 - 1 / 2 ^ 46) / 90
             \<longrightarrow> luckyNumber r = k)
      \<and> (\<forall>k. luckyNumber r = k
             \<longrightarrow> (real_of_int k - 10 - 1 / 2 ^ 46) / 90 < r \<and> r < (real_of_int k - 9) / 90))
   \<and> (\<forall>e st ticks rp st'.
          api_get e st ''/lucky'' ticks r = Some (Answered rp, st') \<longrightarrow>
          rp = \<lparr>status = 200,
                body = Json (JObj [(''luckyNumber'', JNum (real_of_int (luckyNumber r)))])\<rparr>)"
proof (intro conjI allI impI)
  assume a: "fl r = r \<and> 0 \<le> r \<and> r < 1"
  then have "fl r = r" and "r < 1" by simp_all
  then have "r \<le> 1 - 1 / 2 ^ 53" by (rule binary64_below_one)
  with a luckyNumber_bounds [of r]
  show "10 \<le> luckyNumber r" "luckyNumber r \<le> 99" by simp_all
next
  fix k
  assume a: "fl r = r \<and> 0 \<le> r \<and> r < 1"
    and "(real_of_int k - 10) / 90 \<le> r \<and> r \<le> (real_of_int k - 9 - 1 / 2 ^ 46) / 90"
  then show "luckyNumber r = k"
    using luckyNumber_in_cell [of r k] by blast
next
  fix k
  assume a: "fl r = r \<and> 0 \<le> r \<and> r < 1" and k: "luckyNumber r = k"
  from a have "0 \<le> r" "r < 1" by simp_all
  from luckyNumber_cell_of [OF this k]
  show "(real_of_int k - 10 - 1 / 2 ^ 46) / 90 < r" "r < (real_of_int k - 9) / 90"
    by simp_all
next
  fix e st ticks rp st'
  assume "api_get e st ''/lucky'' ticks r = Some (Answered rp, st')"
  then have "lucky_handler e ticks r st = Some (rp, st')"
    by (auto simp: api_get_def split: option.splits)
  from lucky_handler_Some [OF this]
  show "rp = \<lparr>status = 200,
               body = Json (JObj [(''luckyNumber'', JNum (real_of_int (luckyNumber r)))])\<rparr>"
    by blast
qed

text \<open>The draw 1/2 is a binary64 value in the interval of 55, and gives 55.\<close>

theorem lucky_number_in_bounds_nearly_uniform_witness:
  "fl (1 / 2) = 1 / 2 \<and> (0::real) \<le> 1 / 2 \<and> (1 / 2 :: real) < 1
   \<and> (real_of_int 55 - 10) / 90 \<le> 1 / 2
   \<and> (1 / 2 :: real) \<le> (real_of_int 55 - 9 - 1 / 2 ^ 46) / 90
   \<and> luckyNumber (1 / 2) = 55
   \<and> 10 \<le> luckyNumber (1 / 2) \<and> luckyNumber (1 / 2) \<le> 99
   \<and> api_get Map.empty
        \<lparr>b_exit = None, b_now = 5000, b_timer = None, b_listening = Some ''3001'',
         b_log = [(0, ''App is starting... please wait''), (5000, ''App2 is ready!''),
                  (5000, ''Server is running on port 3001'')]\<rparr>
        ''/lucky'' [5000] (1 / 2)
      = Some (Answered \<lparr>status = 200, body = Json (JObj [(''luckyNumber'', JNum 55)])\<rparr>,
              \<lparr>b_exit = None, b_now = 10000, b_timer = None, b_listening = Some ''3001'',
               b_log = [(0, ''App is starting... please wait''), (5000, ''App2 is ready!''),
                        (5000, ''Server is running on port 3001''),
                        (5000, ''Running on pod: undefined''),
                        (5000, ''Received request for lucky number in pod undefined...''),
                        (10000, ''Generated lucky number: 55 in pod undefined'')]\<rparr>)"
proof -
  have g: "api_get Map.empty
        \<lparr>b_exit = None, b_now = 5000, b_timer = None, b_listening = Some ''3001'',
         b_log = [(0, ''App is starting... please wait''), (5000, ''App2 is ready!''),
                  (5000, ''Server is running on port 3001'')]\<rparr>
        ''/lucky'' [5000] (1 / 2)
      = Some (Answered \<lparr>status = 200, body = Json (JObj [(''luckyNumber'', JNum 55)])\<rparr>,
              \<lparr>b_exit = None, b_now = 10000, b_timer = None, b_listening = Some ''3001'',
               b_log = [(0, ''App is starting... please wait''), (5000, ''App2 is ready!''),
                        (5000, ''Server is running on port 3001''),
                        (5000, ''Running on pod: undefined''),
                        (5000, ''Received request for lucky number in pod undefined...''),
                        (10000, ''Generated lucky number: 55 in pod undefined'')]\<rparr>)"
    by (simp add: api_get_def lucky_handler_def busyWait_def console_log_def podName_def
        luckyNumber_half show_int_def)
  have h: "fl (1 / 2) = 1 / 2 \<and> (0::real) \<le> 1 / 2 \<and> (1 / 2 :: real) < 1"
    by (simp add: fl_half)
  have c: "(real_of_int 55 - 10) / 90 \<le> 1 / 2
             \<and> (1 / 2 :: real) \<le> (real_of_int 55 - 9 - 1 / 2 ^ 46) / 90"
    by simp
  from lucky_number_in_bounds_nearly_uniform [of "1 / 2"] h
  have "10 \<le> luckyNumber (1 / 2) \<and> luckyNumber (1 / 2) \<le> 99
      \<and> (\<forall>k. (real_of_int k - 10) / 90 \<le> 1 / 2
               \<and> 1 / 2 \<le> (real_of_int k - 9 - 1 / 2 ^ 46) / 90
             \<longrightarrow> luckyNumber (1 / 2) = k)"
    by blast
  with c have "10 \<le> luckyNumber (1 / 2)" "luckyNumber (1 / 2) \<le> 99" "luckyNumber (1 / 2) = 55"
    by blast+
  with h c g show ?thesis by blast
qed

text \<open>
  Claim C5 as stated (the number is drawn uniformly, each value on its interval of length
  1/90) fails at the upper end of an interval.  The draw \<open>3102479743299675 / 2 ^ 52\<close> is a
  binary64 value inside the interval of 71, between 61/90 and 62/90: its product with 90
  rounds to 62 and the number is 72.  And every draw from \<open>6405119470038038 / 2 ^ 59\<close> up to
  1/90 gives 11, so the draws that give 10 fill less than the interval from 0 to 1/90: with
  a source uniform on \<open>[0, 1)\<close> the value 10 has a probability below 1/90.
\<close>

theorem lucky_number_cells_unequal_counterexample:
  "fl (3102479743299675 / 2 ^ 52) = 3102479743299675 / 2 ^ 52
   \<and> (61 / 90 :: real) \<le> 3102479743299675 / 2 ^ 52
   \<and> (3102479743299675 / 2 ^ 52 :: real) < 62 / 90
   \<and> \<lfloor>10 + (3102479743299675 / 2 ^ 52 :: real) * 90\<rfloor> = 71
   \<and> luckyNumber (3102479743299675 / 2 ^ 52) = 72
   \<and> fl (6405119470038038 / 2 ^ 59) = 6405119470038038 / 2 ^ 59
   \<and> (0::real) \<le> 6405119470038038 / 2 ^ 59
   \<and> (6405119470038038 / 2 ^ 59 :: real) < 1 / 90
   \<and> luckyNumber (6405119470038038 / 2 ^ 59) = 11
   \<and> {r. 0 \<le> r \<and> r < 1 \<and> luckyNumber r = 10} \<subseteq> {0 ..< 6405119470038038 / 2 ^ 59}"
proof (intro conjI)
  show "fl (3102479743299675 / 2 ^ 52) = 3102479743299675 / 2 ^ 52" by (rule fl_r1)
  show "(61 / 90 :: real) \<le> 3102479743299675 / 2 ^ 52" by simp
  show "(3102479743299675 / 2 ^ 52 :: real) < 62 / 90" by simp
  have "real_of_int 71 \<le> 10 + (3102479743299675 / 2 ^ 52 :: real) * 90" by simp
  moreover have "10 + (3102479743299675 / 2 ^ 52 :: real) * 90 < real_of_int 71 + 1" by simp
  ultimately show "\<lfloor>10 + (3102479743299675 / 2 ^ 52 :: real) * 90\<rfloor> = 71"
    by (rule floor_unique)
  show "luckyNumber (3102479743299675 / 2 ^ 52) = 72" by (rule luckyNumber_r1)
  show "fl (6405119470038038 / 2 ^ 59) = 6405119470038038 / 2 ^ 59" by (rule fl_r0)
  show "(0::real) \<le> 6405119470038038 / 2 ^ 59" by simp
  show lt: "(6405119470038038 / 2 ^ 59 :: real) < 1 / 90" by simp
  show "luckyNumber (6405119470038038 / 2 ^ 59) = 11"
    by (rule luckyNumber_below_first_boundary [OF order_refl lt])
  show "{r. 0 \<le> r \<and> r < 1 \<and> luckyNumber r = 10} \<subseteq> {0 ..< 6405119470038038 / 2 ^ 59}"
  proof
    fix r :: real
    assume "r \<in> {r. 0 \<le> r \<and> r < 1 \<and> luckyNumber r = 10}"
    then have r: "0 \<le> r" "r < 1" "luckyNumber r = 10" by simp_all
    from luckyNumber_cell_of [OF r] have below: "r < 1 / 90" by simp
    have "r < 6405119470038038 / 2 ^ 59"
    proof (rule ccontr)
      assume "\<not> r < 6405119470038038 / 2 ^ 59"
      then have "6405119470038038 / 2 ^ 59 \<le> r" by simp
      from luckyNumber_below_first_boundary [OF this below] r(3) show False by simp
    qed
    with r(1) show "r \<in> {0 ..< 6405119470038038 / 2 ^ 59}" by simp
  qed
qed

subsection \<open>Requests behind a busy wait\<close>

lemma api_get_lucky:
  assumes "api_get e st ''/lucky'' ticks r = Some (a, st')" and "b_listening st \<noteq> None"
  shows "\<exists>rp t. a = Answered rp \<and> busyWait 5000 ticks (b_now st) = Some t
           \<and> b_now st' = t \<and> b_listening st' = b_listening st"
proof -
  from assms obtain rp where a: "a = Answered rp"
    and h: "lucky_handler e ticks r st = Some (rp, st')"
    by (auto simp: api_get_def split: option.splits)
  from lucky_handler_Some [OF h] obtain t where
    t: "busyWait 5000 ticks (b_now st) = Some t"
    and st': "st' = st\<lparr>b_now := t,
                      b_log := b_log st @
                        [(b_now st, ''Running on pod: '' @ podName e),
                         (b_now st, ''Received request for lucky number in pod '' @ podName e @ ''...''),
                         (t, ''Generated lucky number: '' @ show_int (luckyNumber r) @ '' in pod ''
                               @ podName e)]\<rparr>"
    by blast
  from st' have "b_now st' = t" "b_listening st' = b_listening st" by simp_all
  with a t show ?thesis by blast
qed

lemma api_get_other:
  assumes "api_get e st path ticks r = Some (a, st')" and "b_listening st \<noteq> None"
    and "path \<noteq> ''/lucky''"
  shows "st' = st \<and> (\<exists>rp. a = Answered rp)"
  using assms by (auto simp: api_get_def split: option.splits if_splits)

lemma api_get_time:
  assumes "api_get e st path ticks r = Some (a, st')" and "b_listening st \<noteq> None"
  shows "b_listening st' = b_listening st"
    and "\<exists>rp. a = Answered rp"
    and "b_now st + (if path = ''/lucky'' then 5000 else 0) \<le> b_now st'"
    and "path = ''/lucky'' \<Longrightarrow> \<forall>d\<in>set ticks. d \<le> g \<Longrightarrow> b_now st' < b_now st + 5000 + g"
proof -
  have l: "\<exists>rp t. a = Answered rp \<and> busyWait 5000 ticks (b_now st) = Some t
           \<and> b_now st' = t \<and> b_listening st' = b_listening st" if "path = ''/lucky''"
    using api_get_lucky [of e st ticks r a st'] assms that by simp
  have o: "st' = st \<and> (\<exists>rp. a = Answered rp)" if "path \<noteq> ''/lucky''"
    using api_get_other [OF assms that] .
  show "b_listening st' = b_listening st"
    using l o by (cases "path = ''/lucky''") auto
  show "\<exists>rp. a = Answered rp"
    using l o by (cases "path = ''/lucky''") auto
  show "b_now st + (if path = ''/lucky'' then 5000 else 0) \<le> b_now st'"
  proof (cases "path = ''/lucky''")
    case True
    from l [OF this] obtain t where "busyWait 5000 ticks (b_now st) = Some t" "b_now st' = t"
      by blast
    with busyWait_Some_ge [of 5000 ticks "b_now st" t] True show ?thesis by simp
  next
    case False
    with o show ?thesis by simp
  qed
  show "b_now st' < b_now st + 5000 + g" if "path = ''/lucky''" "\<forall>d\<in>set ticks. d \<le> g"
  proof -
    from l [OF that(1)] obtain t where "busyWait 5000 ticks (b_now st) = Some t" "b_now st' = t"
      by blast
    with busyWait_Some_lt [of 5000 ticks "b_now st" t g] that(2) show ?thesis by simp
  qed
qed

lemma api_get_returns:
  assumes "b_listening st \<noteq> None" and "path = ''/lucky'' \<longrightarrow> 5000 \<le> sum_list ticks"
  shows "\<exists>a st'. api_get e st path ticks r = Some (a, st')"
proof (cases "path = ''/lucky''")
  case True
  with assms(2) have "5000 \<le> sum_list ticks" by simp
  moreover then have "ticks \<noteq> []" by auto
  ultimately obtain t where "busyWait 5000 ticks (b_now st) = Some t"
    using busyWait_returns [of 5000 ticks "b_now st"] by blast
  from lucky_handler_returns [OF this] obtain rp st' where
    "lucky_handler e ticks r st = Some (rp, st')" by blast
  with assms(1) True show ?thesis by (auto simp: api_get_def)
next
  case False
  with assms(1) show ?thesis by (auto simp: api_get_def)
qed

lemma serve_returns:
  assumes "b_listening st \<noteq> None"
    and "\<forall>q\<in>set reqs. fst q = ''/lucky'' \<longrightarrow> 5000 \<le> sum_list (fst (snd q))"
  shows "\<exists>out. serve e reqs st = Some out"
  using assms
proof (induction reqs arbitrary: st)
  case Nil
  then show ?case by simp
next
  case (Cons q reqs)
  obtain path ticks r where q: "q = (path, ticks, r)" by (cases q) auto
  with Cons.prems(2) have "path = ''/lucky'' \<longrightarrow> 5000 \<le> sum_list ticks" by simp
  from api_get_returns [OF Cons.prems(1) this] obtain a st' where
    g: "api_get e st path ticks r = Some (a, st')" by blast
  from api_get_time(1) [OF g Cons.prems(1)] Cons.prems(1) have "b_listening st' \<noteq> None" by simp
  moreover from Cons.prems(2)
  have "\<forall>q\<in>set reqs. fst q = ''/lucky'' \<longrightarrow> 5000 \<le> sum_list (fst (snd q))" by simp
  ultimately obtain out where "serve e reqs st' = Some out"
    using Cons.IH by blast
  with g q show ?case by simp
qed

lemma serve_Cons_Some:
  assumes "serve e ((path, ticks, r) # reqs) st = Some out"
  shows "\<exists>a st' out'. api_get e st path ticks r = Some (a, st')
           \<and> serve e reqs st' = Some out' \<and> out = (a, b_now st') # out'"
proof (cases "api_get e st path ticks r")
  case None
  with assms show ?thesis by simp
next
  case (Some p)
  obtain a st' where p: "p = (a, st')" by (cases p)
  show ?thesis
  proof (cases "serve e reqs st'")
    case None
    with Some p assms show ?thesis by simp
  next
    case (Some out')
    with \<open>api_get e st path ticks r = Some p\<close> p assms show ?thesis by simp
  qed
qed

lemma serve_spacing:
  assumes "serve e reqs st = Some out" and "b_listening st \<noteq> None"
  shows "length out = length reqs
         \<and> (\<forall>i<length reqs.
               (\<exists>rp. fst (out ! i) = Answered rp)
               \<and> (if i = 0 then b_now st else snd (out ! (i - 1)))
                   + (if fst (reqs ! i) = ''/lucky'' then 5000 else 0) \<le> snd (out ! i)
               \<and> (fst (reqs ! i) = ''/lucky'' \<and> (\<forall>d\<in>set (fst (snd (reqs ! i))). d \<le> g)
                    \<longrightarrow> snd (out ! i) < (if i = 0 then b_now st else snd (out ! (i - 1))) + 5000 + g))"
  using assms
proof (induction reqs arbitrary: st out)
  case Nil
  then show ?case by simp
next
  case (Cons q reqs)
  obtain path ticks r where q: "q = (path, ticks, r)" by (cases q) auto
  from Cons.prems(1) have "serve e ((path, ticks, r) # reqs) st = Some out"
    by (simp only: q)
  from serve_Cons_Some [OF this] obtain a st' out' where
    g: "api_get e st path ticks r = Some (a, st')"
    and s: "serve e reqs st' = Some out'"
    and out: "out = (a, b_now st') # out'"
    by blast
  note t = api_get_time [OF g Cons.prems(2)]
  from t(1) Cons.prems(2) have "b_listening st' \<noteq> None" by simp
  note ih = Cons.IH [OF s this]
  from ih have len: "length out' = length reqs" by (rule conjunct1)
  from ih have rest: "\<And>j. j < length reqs \<Longrightarrow>
       (\<exists>rp. fst (out' ! j) = Answered rp)
       \<and> (if j = 0 then b_now st' else snd (out' ! (j - 1)))
           + (if fst (reqs ! j) = ''/lucky'' then 5000 else 0) \<le> snd (out' ! j)
       \<and> (fst (reqs ! j) = ''/lucky'' \<and> (\<forall>d\<in>set (fst (snd (reqs ! j))). d \<le> g)
            \<longrightarrow> snd (out' ! j) < (if j = 0 then b_now st' else snd (out' ! (j - 1))) + 5000 + g)"
    by blast
  have prev: "snd (out ! j) = (if j = 0 then b_now st' else snd (out' ! (j - 1)))" for j
    by (cases j) (simp_all add: out)
  have "(\<exists>rp. fst (out ! i) = Answered rp)
        \<and> (if i = 0 then b_now st else snd (out ! (i - 1)))
            + (if fst ((q # reqs) ! i) = ''/lucky'' then 5000 else 0) \<le> snd (out ! i)
        \<and> (fst ((q # reqs) ! i) = ''/lucky'' \<and> (\<forall>d\<in>set (fst (snd ((q # reqs) ! i))). d \<le> g)
             \<longrightarrow> snd (out ! i) < (if i = 0 then b_now st else snd (out ! (i - 1))) + 5000 + g)"
    if i: "i < length (q # reqs)" for i
  proof (cases i)
    case 0
    have "out ! 0 = (a, b_now st')" by (simp add: out)
    moreover have "(q # reqs) ! 0 = (path, ticks, r)" by (simp add: q)
    ultimately show ?thesis
      using t(2) t(3) t(4) by (simp add: 0)
  next
    case (Suc j)
    with i have j: "j < length reqs" by simp
    have "out ! Suc j = out' ! j" by (simp add: out)
    moreover have "(q # reqs) ! Suc j = reqs ! j" by simp
    moreover have "snd (out ! (Suc j - 1)) = (if j = 0 then b_now st' else snd (out' ! (j - 1)))"
      using prev [of j] by simp
    ultimately show ?thesis
      using rest [OF j] by (simp add: Suc)
  qed
  with len out show ?case by simp
qed

text \<open>
  Claim C10: on a listening backend, pending requests are answered one after the other,
  and all of them are once the clock moves during each wait.  A request to \<^verbatim>\<open>/lucky\<close> is
  answered at least 5000 milliseconds after the answer before it (after the start, for the
  first), and less than \<open>5000 + g\<close> after it when the clock is read at least every \<open>g\<close>
  milliseconds; a request to any other path, \<^verbatim>\<open>/ping\<close> included, is answered no earlier
  than the answers before it, so only after the waits of the requests to \<^verbatim>\<open>/lucky\<close> ahead
  of it.
\<close>

theorem head_of_line_blocking:
  assumes "b_listening st \<noteq> None"
  shows "((\<forall>q\<in>set reqs. fst q = ''/lucky'' \<longrightarrow> 5000 \<le> sum_list (fst (snd q)))
            \<longrightarrow> (\<exists>out. serve e reqs st = Some out))
         \<and> (\<forall>out. serve e reqs st = Some out \<longrightarrow>
               length out = length reqs
               \<and> (\<forall>i<length reqs.
                     (\<exists>rp. fst (out ! i) = Answered rp)
                     \<and> (if i = 0 then b_now st else snd (out ! (i - 1)))
                         + (if fst (reqs ! i) = ''/lucky'' then 5000 else 0) \<le> snd (out ! i)
                     \<and> (fst (reqs ! i) = ''/lucky''
                          \<and> (\<forall>d\<in>set (fst (snd (reqs ! i))). d \<le> g)
                        \<longrightarrow> snd (out ! i)
                              < (if i = 0 then b_now st else snd (out ! (i - 1))) + 5000 + g)))"
proof (intro conjI impI allI)
  assume "\<forall>q\<in>set reqs. fst q = ''/lucky'' \<longrightarrow> 5000 \<le> sum_list (fst (snd q))"
  from serve_returns [OF assms this] show "\<exists>out. serve e reqs st = Some out" .
next
  fix out
  assume s: "serve e reqs st = Some out"
  from serve_spacing [OF s assms, of g]
  show "length out = length reqs" by (rule conjunct1)
next
  fix out i
  assume s: "serve e reqs st = Some out" and i: "i < length reqs"
  from serve_spacing [OF s assms, of g] i
  have *: "(\<exists>rp. fst (out ! i) = Answered rp)
         \<and> (if i = 0 then b_now st else snd (out ! (i - 1)))
             + (if fst (reqs ! i) = ''/lucky'' then 5000 else 0) \<le> snd (out ! i)
         \<and> (fst (reqs ! i) = ''/lucky'' \<and> (\<forall>d\<in>set (fst (snd (reqs ! i))). d \<le> g)
              \<longrightarrow> snd (out ! i) < (if i = 0 then b_now st else snd (out ! (i - 1))) + 5000 + g)"
    by blast
  from * show "\<exists>rp. fst (out ! i) = Answered rp" by (rule conjunct1)
  from * show "(if i = 0 then b_now st else snd (out ! (i - 1)))
             + (if fst (reqs ! i) = ''/lucky'' then 5000 else 0) \<le> snd (out ! i)"
    by (rule conjunct1 [OF conjunct2])
  assume "fst (reqs ! i) = ''/lucky'' \<and> (\<forall>d\<in>set (fst (snd (reqs ! i))). d \<le> g)"
  with * show "snd (out ! i) < (if i = 0 then b_now st else snd (out ! (i - 1))) + 5000 + g"
    by blast
qed

text \<open>
  Three requests to \<^verbatim>\<open>/lucky\<close> and one to \<^verbatim>\<open>/ping\<close> pending at 5000 milliseconds, the
  clock read every second: the answers come at 10000, 10000 (the \<^verbatim>\<open>/ping\<close> behind the
  first wait), 15000 and 20000.
\<close>

theorem head_of_line_blocking_witness:
  "b_listening
      \<lparr>b_exit = None, b_now = 5000, b_timer = None, b_listening = Some ''3001'', b_log = []\<rparr> \<noteq> None
   \<and> serve Map.empty
        [(''/lucky'', [1000, 1000, 1000, 1000, 1000], 1 / 2),
         (''/ping'', [], 0),
         (''/lucky'', [1000, 1000, 1000, 1000, 1000], 1 / 2),
         (''/lucky'', [1000, 1000, 1000, 1000, 1000], 1 / 2)]
        \<lparr>b_exit = None, b_now = 5000, b_timer = None, b_listening = Some ''3001'', b_log = []\<rparr>
      = Some
          [(Answered \<lparr>status = 200, body = Json (JObj [(''luckyNumber'', JNum 55)])\<rparr>, 10000),
           (Answered \<lparr>status = 200, body = Json (JObj [(''status'', JStr ''ok'')])\<rparr>, 10000),
           (Answered \<lparr>status = 200, body = Json (JObj [(''luckyNumber'', JNum 55)])\<rparr>, 15000),
           (Answered \<lparr>status = 200, body = Json (JObj [(''luckyNumber'', JNum 55)])\<rparr>, 20000)]"
  using
    head_of_line_blocking
      [of "\<lparr>b_exit = None, b_now = 5000, b_timer = None, b_listening = Some ''3001'', b_log = []\<rparr>"
          "[(''/lucky'', [1000, 1000, 1000, 1000, 1000], 1 / 2),
            (''/ping'', [], 0),
            (''/lucky'', [1000, 1000, 1000, 1000, 1000], 1 / 2),
            (''/lucky'', [1000, 1000, 1000, 1000, 1000], 1 / 2)]"
          Map.empty 1000]
  by (simp add: api_get_def lucky_handler_def busyWait_def console_log_def podName_def
      luckyNumber_half show_int_def ping_handler_def)

subsection \<open>Readiness\<close>

lemma step_keeps_startup:
  assumes "step os e ev st = Some st'"
    and "b_listening st \<noteq> None \<longrightarrow> 5000 \<le> b_now st \<and> os (api_PORT e) = Bound"
    and "b_listening st = None \<and> b_exit st = None \<longrightarrow> b_timer st = Some 5000"
    and "b_exit st \<noteq> None \<longrightarrow> b_listening st = None \<and> os (api_PORT e) \<noteq> Bound"
  shows "(b_listening st' \<noteq> None \<longrightarrow> 5000 \<le> b_now st' \<and> os (api_PORT e) = Bound)
         \<and> (b_listening st' = None \<and> b_exit st' = None \<longrightarrow> b_timer st' = Some 5000)
         \<and> (b_exit st' \<noteq> None \<longrightarrow> b_listening st' = None \<and> os (api_PORT e) \<noteq> Bound)"
proof (cases ev)
  case (Elapse d)
  with assms show ?thesis by auto
next
  case Timers
  show ?thesis
  proof (cases "b_exit st \<noteq> None")
    case True
    with Timers assms show ?thesis by auto
  next
    case False
    with Timers assms(1) have st': "st' = run_timers os e st" by simp
    show ?thesis
    proof (cases "b_timer st")
      case None
      with st' have "st' = st" by (simp add: run_timers_def)
      with assms(2-4) show ?thesis by simp
    next
      case (Some deadline)
      show ?thesis
      proof (cases "b_now st < deadline")
        case True
        with Some st' have "st' = st" by (simp add: run_timers_def)
        with assms(2-4) show ?thesis by simp
      next
        case late: False
        from Some assms(2,3) False have now: "5000 \<le> b_now st \<or> deadline = 5000"
          by (cases "b_listening st") auto
        with late have now': "5000 \<le> b_now st" by auto
        show ?thesis
        proof (cases "os (api_PORT e)")
          case Bound
          with Some late st' have
            "b_listening st' = Some (api_PORT e)" "b_now st' = b_now st" "b_exit st' = b_exit st"
            by (simp_all add: run_timers_def console_log_def Let_def)
          with now' Bound False show ?thesis by simp
        next
          case (Fails code)
          with Some late st' have
            "b_listening st' = None" "b_exit st' = Some code"
            by (simp_all add: run_timers_def console_log_def Let_def)
          with Fails show ?thesis by simp
        qed
      qed
    qed
  qed
next
  case (Get path ticks r)
  with assms(1) obtain a where a: "api_get e st path ticks r = Some (a, st')"
    by auto
  show ?thesis
  proof (cases "b_listening st \<noteq> None \<and> path = ''/lucky''")
    case True
    with a obtain rp where "lucky_handler e ticks r st = Some (rp, st')"
      by (auto simp: api_get_def split: option.splits)
    from lucky_handler_Some [OF this] obtain t where
      "busyWait 5000 ticks (b_now st) = Some t"
      and "b_listening st' = b_listening st" and "b_timer st' = b_timer st" and "b_now st' = t"
      and "b_exit st' = b_exit st"
      by auto
    with busyWait_Some_ge [of 5000 ticks "b_now st" t] assms(2-4) show ?thesis
      by auto
  next
    case False
    with a have "st' = st"
      by (auto simp: api_get_def split: option.splits if_splits)
    with assms(2-4) show ?thesis by simp
  qed
qed

lemma run_keeps_startup:
  assumes "run os e evs st = Some st'"
    and "b_listening st \<noteq> None \<longrightarrow> 5000 \<le> b_now st \<and> os (api_PORT e) = Bound"
    and "b_listening st = None \<and> b_exit st = None \<longrightarrow> b_timer st = Some 5000"
    and "b_exit st \<noteq> None \<longrightarrow> b_listening st = None \<and> os (api_PORT e) \<noteq> Bound"
  shows "(b_listening st' \<noteq> None \<longrightarrow> 5000 \<le> b_now st' \<and> os (api_PORT e) = Bound)
         \<and> (b_listening st' = None \<and> b_exit st' = None \<longrightarrow> b_timer st' = Some 5000)
         \<and> (b_exit st' \<noteq> None \<longrightarrow> b_listening st' = None \<and> os (api_PORT e) \<noteq> Bound)"
  using assms
proof (induction evs arbitrary: st)
  case Nil
  then show ?case by simp
next
  case (Cons ev evs)
  from Cons.prems(1) obtain st1 where
    s1: "step os e ev st = Some st1" and r1: "run os e evs st1 = Some st'"
    by (auto split: option.splits)
  from step_keeps_startup [OF s1 Cons.prems(2,3,4)]
  have "b_listening st1 \<noteq> None \<longrightarrow> 5000 \<le> b_now st1 \<and> os (api_PORT e) = Bound"
    and "b_listening st1 = None \<and> b_exit st1 = None \<longrightarrow> b_timer st1 = Some 5000"
    and "b_exit st1 \<noteq> None \<longrightarrow> b_listening st1 = None \<and> os (api_PORT e) \<noteq> Bound"
    by simp_all
  from Cons.IH [OF r1 this] show ?case .
qed

text \<open>
  Claim C4: after any history of a launched backend, a GET of \<^verbatim>\<open>/ping\<close> is answered with
  status 200 and the document \<^verbatim>\<open>{"status":"ok"}\<close> if and only if the process is ready (its
  listener is bound), which it is only when the 5000 milliseconds of the startup delay
  have passed.  Before that the connection is not accepted.  Once the delay has passed,
  the next turn of the event loop through its timers makes \<^verbatim>\<open>/ping\<close> answer \<^verbatim>\<open>ok\<close> where
  \<^verbatim>\<open>app.listen\<close> binds the port; where it fails, the process is never ready and \<^verbatim>\<open>/ping\<close> is
  never answered.
\<close>

theorem ping_ok_iff_ready:
  assumes "run os e evs launch = Some st"
  shows "((api_get e st ''/ping'' ticks r =
            Some (Answered \<lparr>status = 200, body = Json (JObj [(''status'', JStr ''ok'')])\<rparr>, st))
          \<longleftrightarrow> b_listening st \<noteq> None)
         \<and> (b_listening st \<noteq> None \<longrightarrow> 5000 \<le> b_now st)
         \<and> (b_now st < 5000 \<longrightarrow> api_get e st ''/ping'' ticks r = Some (Refused, st))
         \<and> (5000 \<le> b_now st \<and> os (api_PORT e) = Bound \<longrightarrow>
               api_get e (run_timers os e st) ''/ping'' ticks r =
                 Some (Answered \<lparr>status = 200, body = Json (JObj [(''status'', JStr ''ok'')])\<rparr>,
                       run_timers os e st))
         \<and> (os (api_PORT e) \<noteq> Bound \<longrightarrow> api_get e st ''/ping'' ticks r = Some (Refused, st))"
proof -
  have "b_listening launch \<noteq> None \<longrightarrow> 5000 \<le> b_now launch \<and> os (api_PORT e) = Bound"
    and "b_listening launch = None \<and> b_exit launch = None \<longrightarrow> b_timer launch = Some 5000"
    and "b_exit launch \<noteq> None \<longrightarrow> b_listening launch = None \<and> os (api_PORT e) \<noteq> Bound"
    by (simp_all add: launch_def console_log_def)
  from run_keeps_startup [OF assms this]
  have ready: "b_listening st \<noteq> None \<longrightarrow> 5000 \<le> b_now st \<and> os (api_PORT e) = Bound"
    and starting: "b_listening st = None \<and> b_exit st = None \<longrightarrow> b_timer st = Some 5000"
    and ended: "b_exit st \<noteq> None \<longrightarrow> b_listening st = None \<and> os (api_PORT e) \<noteq> Bound"
    by simp_all
  have a: "(api_get e st ''/ping'' ticks r =
            Some (Answered \<lparr>status = 200, body = Json (JObj [(''status'', JStr ''ok'')])\<rparr>, st))
          \<longleftrightarrow> b_listening st \<noteq> None"
    by (auto simp: api_get_def ping_handler_def split: option.splits)
  have b: "b_listening st \<noteq> None \<longrightarrow> 5000 \<le> b_now st"
    using ready by simp
  have c: "b_now st < 5000 \<longrightarrow> api_get e st ''/ping'' ticks r = Some (Refused, st)"
    using ready by (auto simp: api_get_def split: option.splits)
  have d: "5000 \<le> b_now st \<and> os (api_PORT e) = Bound \<longrightarrow>
               api_get e (run_timers os e st) ''/ping'' ticks r =
                 Some (Answered \<lparr>status = 200, body = Json (JObj [(''status'', JStr ''ok'')])\<rparr>,
                       run_timers os e st)"
  proof
    assume h: "5000 \<le> b_now st \<and> os (api_PORT e) = Bound"
    with ended have ex: "b_exit st = None" by auto
    have "b_listening (run_timers os e st) \<noteq> None"
    proof (cases "b_listening st")
      case None
      with starting ex have "b_timer st = Some 5000" by simp
      with h show ?thesis
        by (simp add: run_timers_def console_log_def Let_def)
    next
      case (Some port)
      with h show ?thesis
        by (cases "b_timer st") (simp_all add: run_timers_def console_log_def Let_def)
    qed
    then show "api_get e (run_timers os e st) ''/ping'' ticks r =
                 Some (Answered \<lparr>status = 200, body = Json (JObj [(''status'', JStr ''ok'')])\<rparr>,
                       run_timers os e st)"
      by (auto simp: api_get_def ping_handler_def split: option.splits)
  qed
  have f: "os (api_PORT e) \<noteq> Bound \<longrightarrow> api_get e st ''/ping'' ticks r = Some (Refused, st)"
    using ready by (auto simp: api_get_def split: option.splits)
  from a b c d f show ?thesis by blast
qed

text \<open>
  One millisecond before the deadline the connection is refused; after the deadline, a
  turn through the timers and a request to \<^verbatim>\<open>/lucky\<close>, the answer to \<^verbatim>\<open>/ping\<close> is \<^verbatim>\<open>ok\<close>.
  With \<^verbatim>\<open>PORT=70000\<close>, which \<^verbatim>\<open>app.listen\<close> refuses, the process has ended after the
  deadline and the connection is refused.
\<close>

theorem ping_ok_iff_ready_witness:
  "run (\<lambda>port. Bound) Map.empty [Elapse 4999, Timers] launch =
     Some \<lparr>b_exit = None, b_now = 4999, b_timer = Some 5000, b_listening = None,
           b_log = [(0, ''App is starting... please wait'')]\<rparr>
   \<and> api_get Map.empty
        \<lparr>b_exit = None, b_now = 4999, b_timer = Some 5000, b_listening = None,
         b_log = [(0, ''App is starting... please wait'')]\<rparr> ''/ping'' [] 0
      = Some (Refused,
              \<lparr>b_exit = None, b_now = 4999, b_timer = Some 5000, b_listening = None,
               b_log = [(0, ''App is starting... please wait'')]\<rparr>)
   \<and> run (\<lambda>port. Bound) Map.empty
        [Elapse 4999, Timers, Elapse 2, Timers, Get ''/lucky'' [2500, 2500] (1 / 2)] launch =
     Some \<lparr>b_exit = None, b_now = 10001, b_timer = None, b_listening = Some ''3001'',
           b_log = [(0, ''App is starting... please wait''), (5001, ''App2 is ready!''),
                    (5001, ''Server is running on port 3001''),
                    (5001, ''Running on pod: undefined''),
                    (5001, ''Received request for lucky number in pod undefined...''),
                    (10001, ''Generated lucky number: 55 in pod undefined'')]\<rparr>
   \<and> api_get Map.empty
        \<lparr>b_exit = None, b_now = 10001, b_timer = None, b_listening = Some ''3001'',
         b_log = [(0, ''App is starting... please wait''), (5001, ''App2 is ready!''),
                  (5001, ''Server is running on port 3001''),
                  (5001, ''Running on pod: undefined''),
                  (5001, ''Received request for lucky number in pod undefined...''),
                  (10001, ''Generated lucky number: 55 in pod undefined'')]\<rparr> ''/ping'' [] 0
      = Some (Answered \<lparr>status = 200, body = Json (JObj [(''status'', JStr ''ok'')])\<rparr>,
              \<lparr>b_exit = None, b_now = 10001, b_timer = None, b_listening = Some ''3001'',
               b_log = [(0, ''App is starting... please wait''), (5001, ''App2 is ready!''),
                        (5001, ''Server is running on port 3001''),
                        (5001, ''Running on pod: undefined''),
                        (5001, ''Received request for lucky number in pod undefined...''),
                        (10001, ''Generated lucky number: 55 in pod undefined'')]\<rparr>)
   \<and> run (\<lambda>port. if port = ''70000'' then Fails 1 else Bound) [''PORT'' \<mapsto> ''70000'']
        [Elapse 6000, Timers, Elapse 1000, Timers] launch =
     Some \<lparr>b_exit = Some 1, b_now = 7000, b_timer = None, b_listening = None,
           b_log = [(0, ''App is starting... please wait''), (6000, ''App2 is ready!'')]\<rparr>
   \<and> api_get [''PORT'' \<mapsto> ''70000'']
        \<lparr>b_exit = Some 1, b_now = 7000, b_timer = None, b_listening = None,
         b_log = [(0, ''App is starting... please wait''), (6000, ''App2 is ready!'')]\<rparr>
        ''/ping'' [] 0
      = Some (Refused,
              \<lparr>b_exit = Some 1, b_now = 7000, b_timer = None, b_listening = None,
               b_log = [(0, ''App is starting... please wait''), (6000, ''App2 is ready!'')]\<rparr>)"
proof -
  have h1: "run (\<lambda>port. Bound) Map.empty [Elapse 4999, Timers] launch =
     Some \<lparr>b_exit = None, b_now = 4999, b_timer = Some 5000, b_listening = None,
           b_log = [(0, ''App is starting... please wait'')]\<rparr>"
    by (simp add: launch_def run_timers_def console_log_def)
  have h2: "run (\<lambda>port. Bound) Map.empty
        [Elapse 4999, Timers, Elapse 2, Timers, Get ''/lucky'' [2500, 2500] (1 / 2)] launch =
     Some \<lparr>b_exit = None, b_now = 10001, b_timer = None, b_listening = Some ''3001'',
           b_log = [(0, ''App is starting... please wait''), (5001, ''App2 is ready!''),
                    (5001, ''Server is running on port 3001''),
                    (5001, ''Running on pod: undefined''),
                    (5001, ''Received request for lucky number in pod undefined...''),
                    (10001, ''Generated lucky number: 55 in pod undefined'')]\<rparr>"
    by (simp add: launch_def run_timers_def console_log_def api_PORT_def env_or_def
        api_get_def lucky_handler_def busyWait_def podName_def luckyNumber_half show_int_def)
  have h3: "run (\<lambda>port. if port = ''70000'' then Fails 1 else Bound) [''PORT'' \<mapsto> ''70000'']
        [Elapse 6000, Timers, Elapse 1000, Timers] launch =
     Some \<lparr>b_exit = Some 1, b_now = 7000, b_timer = None, b_listening = None,
           b_log = [(0, ''App is starting... please wait''), (6000, ''App2 is ready!'')]\<rparr>"
    by (simp add: launch_def run_timers_def console_log_def api_PORT_def env_or_def)
  from ping_ok_iff_ready [OF h1, of "[]" 0] ping_ok_iff_ready [OF h2, of "[]" 0]
    ping_ok_iff_ready [OF h3, of "[]" 0] h1 h2 h3
  show ?thesis by (simp add: api_PORT_def env_or_def)
qed

subsection \<open>The route \<^verbatim>\<open>/crash\<close>\<close>

text \<open>
  Claim C3 says that a GET of \<^verbatim>\<open>/crash\<close> is answered with 200 and ends the process.  The
  backend registers \<^verbatim>\<open>/lucky\<close> and \<^verbatim>\<open>/ping\<close> and nothing else: on a ready backend the
  request gets the 404 page of Express, the state of the process is unchanged, and the
  next \<^verbatim>\<open>/ping\<close> is answered with \<^verbatim>\<open>ok\<close>.
\<close>

theorem crash_route_is_not_registered:
  "run (\<lambda>port. Bound) Map.empty [Elapse 5000, Timers] launch =
     Some \<lparr>b_exit = None, b_now = 5000, b_timer = None, b_listening = Some ''3001'',
           b_log = [(0, ''App is starting... please wait''), (5000, ''App2 is ready!''),
                    (5000, ''Server is running on port 3001'')]\<rparr>
   \<and> api_get Map.empty
        \<lparr>b_exit = None, b_now = 5000, b_timer = None, b_listening = Some ''3001'',
         b_log = [(0, ''App is starting... please wait''), (5000, ''App2 is ready!''),
                  (5000, ''Server is running on port 3001'')]\<rparr> ''/crash'' [] 0
      = Some (Answered \<lparr>status = 404, body = DefaultPage\<rparr>,
              \<lparr>b_exit = None, b_now = 5000, b_timer = None, b_listening = Some ''3001'',
               b_log = [(0, ''App is starting... please wait''), (5000, ''App2 is ready!''),
                        (5000, ''Server is running on port 3001'')]\<rparr>)
   \<and> api_get Map.empty
        \<lparr>b_exit = None, b_now = 5000, b_timer = None, b_listening = Some ''3001'',
         b_log = [(0, ''App is starting... please wait''), (5000, ''App2 is ready!''),
                  (5000, ''Server is running on port 3001'')]\<rparr> ''/ping'' [] 0
      = Some (Answered \<lparr>status = 200, body = Json (JObj [(''status'', JStr ''ok'')])\<rparr>,
              \<lparr>b_exit = None, b_now = 5000, b_timer = None, b_listening = Some ''3001'',
               b_log = [(0, ''App is starting... please wait''), (5000, ''App2 is ready!''),
                        (5000, ''Server is running on port 3001'')]\<rparr>)"
  by (simp add: launch_def run_timers_def console_log_def api_PORT_def env_or_def
      api_get_def ping_handler_def)

end
